theory Spec2Isabelle
  imports Complex_Main "HOL-Library.AList"
begin

section \<open>Task Master: the task graph operations of task-manager.js and ai-services.js\<close>

text \<open>
  The development embeds the operations of \<^verbatim>\<open>scripts/modules/task-manager.js\<close> that
  change or query the task document (\<^verbatim>\<open>setTaskStatus\<close>, \<^verbatim>\<open>updateSingleTaskStatus\<close>,
  \<^verbatim>\<open>addTask\<close>, \<^verbatim>\<open>findNextTask\<close>, \<^verbatim>\<open>addSubtask\<close>, \<^verbatim>\<open>isTaskDependentOn\<close>,
  \<^verbatim>\<open>removeSubtask\<close>) and the record validation of the AI service module
  (\<^verbatim>\<open>parseSubtasksFromText\<close>, \<^verbatim>\<open>processApiResponse\<close>).

  Conventions of the embedding.
  \<^item> A JavaScript object read from \<^verbatim>\<open>tasks.json\<close> is a value of the datatype \<open>task\<close>;
    tasks and subtasks are the same kind of object in the source, so they share the type.
    A property that may be absent (\<^verbatim>\<open>undefined\<close>) is an \<open>option\<close>.
  \<^item> Ids are integers (\<open>int\<close>); the source's numbers are doubles, which agree with the
    integers up to \<open>2^53\<close>. Strings are byte strings.
  \<^item> \<^verbatim>\<open>x || d\<close> on a string property takes \<open>d\<close> when the property is absent or the
    empty string, as JavaScript's truthiness does.
  \<^item> In-place mutation of the object found by \<^verbatim>\<open>Array.prototype.find\<close> is the update of
    the first matching element of the list.
  \<^item> The file \<^verbatim>\<open>tasks.json\<close> is the \<open>store\<close>: what \<^verbatim>\<open>readJSON\<close> returns
    (\<open>None\<close> when the file is missing or unreadable). An operation returns its outcome
    together with the store it leaves behind; \<^verbatim>\<open>writeJSON\<close> replaces the store.
  \<^item> A thrown \<^verbatim>\<open>Error\<close> (or \<^verbatim>\<open>process.exit(1)\<close>) is a value \<open>Inl e\<close> of the
    datatype \<open>error\<close>, one constructor per message of the source.
  \<^item> Console output and the banner are left out, except for the advisory lines of
    \<^verbatim>\<open>updateSingleTaskStatus\<close> and the warning of \<^verbatim>\<open>addTask\<close>, which are part of the
    results.
  \<^item> Modules that are not part of the embedded sources are parameters: the answer of
    the text generator, and \<^verbatim>\<open>validateAndFixDependencies\<close> of the dependency manager
    where \<^verbatim>\<open>addTask\<close> calls it before writing.
  \<^item> An operation is embedded up to its call of \<^verbatim>\<open>writeJSON\<close>. What the source does
    after that call (\<^verbatim>\<open>validateTaskDependencies\<close>, and \<^verbatim>\<open>generateTaskFiles\<close>, which reads
    the file again, hands it to the dependency manager and writes one text file per task)
    is not part of the operation's result here.
\<close>

subsection \<open>Data model\<close>

datatype task = Task
  (task_id: int)
  (title: "string option")
  (description: "string option")
  (details: "string option")
  (testStrategy: "string option")
  (status: "string option")
  (priority: "string option")
  (dependencies: "int list option")
  (subtasks: "task list option")
  (parentTaskId: "int option")

text \<open>Assignments to one property of an object: \<^verbatim>\<open>t.status = s\<close>, \<^verbatim>\<open>t.subtasks = ...\<close>.\<close>

fun set_status :: "string \<Rightarrow> task \<Rightarrow> task" where
  "set_status s (Task i ti de dt ts st pr dp sb pa) = Task i ti de dt ts (Some s) pr dp sb pa"

fun set_subtasks :: "task list option \<Rightarrow> task \<Rightarrow> task" where
  "set_subtasks sb' (Task i ti de dt ts st pr dp sb pa) = Task i ti de dt ts st pr dp sb' pa"

text \<open>
  The document \<^verbatim>\<open>{ tasks: [...], meta: ... }\<close>; \<^verbatim>\<open>data.tasks\<close> may be missing.
  The operations never look at the rest of the document, which is kept as an opaque value.
\<close>

datatype document = Document (tasks: "task list option") (meta: string)

fun set_tasks :: "task list \<Rightarrow> document \<Rightarrow> document" where
  "set_tasks ts (Document old m) = Document (Some ts) m"

type_synonym store = "document option"

datatype error =
    NoValidTasks
  | ParentTaskNotFound
  | ParentHasNoSubtasks
  | SubtaskNotFound
  | TaskNotFound
  | AlreadySubtask
  | SelfReference
  | CircularConversion
  | StackOverflow
  | NeitherTaskNorData
  | InvalidSubtaskIdFormat
  | NonFiniteTaskId
  | GeneratedTaskInvalid

subsection \<open>JavaScript library functions used by the source\<close>

text \<open>\<^verbatim>\<open>v || d\<close> for a string property \<open>v\<close>.\<close>

definition or_default :: "string option \<Rightarrow> string \<Rightarrow> string" where
  "or_default v d = (case v of None \<Rightarrow> d | Some s \<Rightarrow> if s = [] then d else s)"

text \<open>\<^verbatim>\<open>Array.prototype.find\<close> followed by a mutation of the object found.\<close>

fun update_first :: "('a \<Rightarrow> bool) \<Rightarrow> ('a \<Rightarrow> 'a) \<Rightarrow> 'a list \<Rightarrow> 'a list" where
  "update_first P f [] = []"
| "update_first P f (x # xs) = (if P x then f x # xs else x # update_first P f xs)"

text \<open>\<^verbatim>\<open>xs.splice(xs.findIndex(P), 1)\<close> when the index is not \<open>-1\<close>.\<close>

fun remove_first :: "('a \<Rightarrow> bool) \<Rightarrow> 'a list \<Rightarrow> 'a list" where
  "remove_first P [] = []"
| "remove_first P (x # xs) = (if P x then xs else x # remove_first P xs)"

text \<open>\<^verbatim>\<open>Math.max(...xs)\<close>; \<open>None\<close> is the \<^verbatim>\<open>-Infinity\<close> of the empty list.\<close>

fun max_list :: "int \<Rightarrow> int list \<Rightarrow> int" where
  "max_list m [] = m"
| "max_list m (x # xs) = max_list (max m x) xs"

fun math_max :: "int list \<Rightarrow> int option" where
  "math_max [] = None"
| "math_max (x # xs) = Some (max_list x xs)"

text \<open>
  White space removed by \<^verbatim>\<open>String.prototype.trim\<close> and skipped by \<^verbatim>\<open>parseInt\<close>:
  the ASCII white space characters (the Unicode ones are outside byte strings).
\<close>

definition is_ws :: "char \<Rightarrow> bool" where
  "is_ws c = (c \<in> set [CHR 0x20, CHR 0x09, CHR 0x0A, CHR 0x0B, CHR 0x0C, CHR 0x0D])"

definition trim :: "string \<Rightarrow> string" where
  "trim s = rev (dropWhile is_ws (rev (dropWhile is_ws s)))"

text \<open>\<^verbatim>\<open>s.split(c)\<close> for a one-character separator; \<^verbatim>\<open>s.includes(c)\<close> is \<open>c \<in> set s\<close>.\<close>

fun split_on :: "char \<Rightarrow> string \<Rightarrow> string list" where
  "split_on c [] = [[]]"
| "split_on c (x # xs) =
     (if x = c then [] # split_on c xs
      else (case split_on c xs of [] \<Rightarrow> [[x]] | w # ws \<Rightarrow> (x # w) # ws))"

definition digit_table :: "(char \<times> nat) list" where
  "digit_table = zip ''0123456789'' [0, 1, 2, 3, 4, 5, 6, 7, 8, 9]"

definition is_digit :: "char \<Rightarrow> bool" where
  "is_digit c = (map_of digit_table c \<noteq> None)"

definition digits_value :: "string \<Rightarrow> nat" where
  "digits_value ds = foldl (\<lambda>acc c. 10 * acc + (case map_of digit_table c of Some d \<Rightarrow> d | None \<Rightarrow> 0)) 0 ds"

text \<open>
  \<^verbatim>\<open>parseInt(s, 10)\<close>: leading white space, an optional sign, then the longest run of
  decimal digits; \<open>None\<close> is \<^verbatim>\<open>NaN\<close>, which is \<^verbatim>\<open>===\<close> to no id.
\<close>

definition parseInt :: "string \<Rightarrow> int option" where
  "parseInt s =
     (let s1 = dropWhile is_ws s;
          neg = (s1 \<noteq> [] \<and> hd s1 = CHR ''-'');
          s2 = (if s1 \<noteq> [] \<and> (hd s1 = CHR ''-'' \<or> hd s1 = CHR ''+'') then tl s1 else s1);
          ds = takeWhile is_digit s2
      in if ds = [] then None
         else Some (if neg then - int (digits_value ds) else int (digits_value ds)))"

text \<open>The nth segment of a destructured \<^verbatim>\<open>split\<close>; a missing segment is \<^verbatim>\<open>undefined\<close>,
  which \<^verbatim>\<open>parseInt\<close> turns into \<^verbatim>\<open>NaN\<close>.\<close>

definition parse_segment :: "string list \<Rightarrow> nat \<Rightarrow> int option" where
  "parse_segment segs n = (if n < length segs then parseInt (segs ! n) else None)"

text \<open>\<^verbatim>\<open>String.prototype.toLowerCase\<close> on the ASCII letters.\<close>

definition upper_lower :: "(char \<times> char) list" where
  "upper_lower = zip ''ABCDEFGHIJKLMNOPQRSTUVWXYZ'' ''abcdefghijklmnopqrstuvwxyz''"

definition toLowerCase :: "string \<Rightarrow> string" where
  "toLowerCase s = map (\<lambda>c. case map_of upper_lower c of Some l \<Rightarrow> l | None \<Rightarrow> c) s"

text \<open>Decimal rendering of a number in a template literal.\<close>

fun string_of_nat :: "nat \<Rightarrow> string" where
  "string_of_nat n =
     (if n < 10 then [''0123456789'' ! n]
      else string_of_nat (n div 10) @ [''0123456789'' ! (n mod 10)])"

definition string_of_int :: "int \<Rightarrow> string" where
  "string_of_int i = (if i < 0 then CHR ''-'' # string_of_nat (nat (- i)) else string_of_nat (nat i))"

text \<open>
  \<^verbatim>\<open>Array.prototype.sort\<close> with a comparator. The comparator's result may be
  \<^verbatim>\<open>NaN\<close> (\<open>None\<close>), which the sort reads as \<open>0\<close>; \<open>a\<close> goes before \<open>b\<close> when the
  result is negative, and the sort is stable. Only the first element of the result is
  used by the source. (When the comparator is not a consistent ordering of the elements
  the language leaves the order to the implementation; the insertion below then gives
  one such order.)
\<close>

definition sort_compare :: "('a \<Rightarrow> 'a \<Rightarrow> int option) \<Rightarrow> 'a \<Rightarrow> 'a \<Rightarrow> int" where
  "sort_compare c x y = (case c x y of None \<Rightarrow> 0 | Some v \<Rightarrow> v)"

fun insert_cmp :: "('a \<Rightarrow> 'a \<Rightarrow> int option) \<Rightarrow> 'a \<Rightarrow> 'a list \<Rightarrow> 'a list" where
  "insert_cmp c x [] = [x]"
| "insert_cmp c x (y # ys) =
     (if sort_compare c x y \<le> 0 then x # y # ys else y # insert_cmp c x ys)"

definition sort_cmp :: "('a \<Rightarrow> 'a \<Rightarrow> int option) \<Rightarrow> 'a list \<Rightarrow> 'a list" where
  "sort_cmp c xs = foldr (insert_cmp c) xs []"

subsection \<open>Status comparison\<close>

text \<open>\<^verbatim>\<open>st.status === 'done' || st.status === 'completed'\<close>\<close>

definition is_done :: "task \<Rightarrow> bool" where
  "is_done t = (status t = Some ''done'' \<or> status t = Some ''completed'')"

text \<open>\<^verbatim>\<open>newStatus.toLowerCase() === 'done' || newStatus.toLowerCase() === 'completed'\<close>\<close>

definition normalizes_to_done :: "string \<Rightarrow> bool" where
  "normalizes_to_done s = (toLowerCase s = ''done'' \<or> toLowerCase s = ''completed'')"

subsection \<open>findNextTask\<close>

definition completedTaskIds :: "task list \<Rightarrow> int set" where
  "completedTaskIds ts = set (map task_id (filter is_done ts))"

definition eligibleTasks :: "task list \<Rightarrow> task list" where
  "eligibleTasks ts =
     filter (\<lambda>task. (status task = Some ''pending'' \<or> status task = Some ''in-progress'')
                   \<and> (case dependencies task of
                        None \<Rightarrow> False
                      | Some deps \<Rightarrow> list_all (\<lambda>depId. depId \<in> completedTaskIds ts) deps)) ts"

text \<open>
  \<^verbatim>\<open>priorityValues[p || 'medium'] || 2\<close> with the object literal
  \<^verbatim>\<open>{high: 3, medium: 2, low: 1}\<close>. The lookup finds the three numbers under their
  keys; under the name of a member of \<^verbatim>\<open>Object.prototype\<close> it finds that member, a
  function or an object, which is truthy and no number; under any other key it finds
  nothing, and the value is 2.
\<close>

definition priorityValues :: "(string \<times> int) list" where
  "priorityValues = [(''high'', 3), (''medium'', 2), (''low'', 1)]"

definition object_prototype_members :: "string list" where
  "object_prototype_members =
     [''constructor'', ''hasOwnProperty'', ''isPrototypeOf'', ''propertyIsEnumerable'',
      ''toLocaleString'', ''toString'', ''valueOf'', ''__proto__'', ''__defineGetter__'',
      ''__defineSetter__'', ''__lookupGetter__'', ''__lookupSetter__'']"

datatype priority_value = Number int | Member string

definition priorityValue :: "task \<Rightarrow> priority_value" where
  "priorityValue t =
     (let key = or_default (priority t) ''medium''
      in case map_of priorityValues key of
           Some v \<Rightarrow> Number v
         | None \<Rightarrow> if key \<in> set object_prototype_members then Member key else Number 2)"

text \<open>
  The comparator handed to \<^verbatim>\<open>sort\<close>. Two priority values are \<^verbatim>\<open>!==\<close> when they are
  different numbers or different members, and their difference is a number only when
  both are numbers.
\<close>

definition compareTasks :: "task \<Rightarrow> task \<Rightarrow> int option" where
  "compareTasks a b =
     (let priorityA = priorityValue a; priorityB = priorityValue b in
      if priorityB \<noteq> priorityA then
        (case (priorityB, priorityA) of
           (Number pb, Number pa) \<Rightarrow> Some (pb - pa)
         | _ \<Rightarrow> None)
      else (case (dependencies a, dependencies b) of
              (Some da, Some db) \<Rightarrow>
                 if length da \<noteq> length db then Some (int (length da) - int (length db))
                 else Some (task_id a - task_id b)
            | _ \<Rightarrow> Some (task_id a - task_id b)))"

definition findNextTask :: "task list \<Rightarrow> task option" where
  "findNextTask ts =
     (let eligible = eligibleTasks ts in
      if length eligible = 0 then None
      else Some (hd (sort_cmp compareTasks eligible)))"

subsection \<open>The selection contract, in the words of the specification\<close>

text \<open>
  A node is a candidate when its status is pending or in-progress and every one of its
  dependencies is the id of a node with status done; a node without a dependency list
  has no dependency to satisfy.
\<close>

definition dependency_list :: "task \<Rightarrow> int list" where
  "dependency_list t = (case dependencies t of None \<Rightarrow> [] | Some deps \<Rightarrow> deps)"

definition resolves_to_done :: "task list \<Rightarrow> int \<Rightarrow> bool" where
  "resolves_to_done ts d = list_ex (\<lambda>u. task_id u = d \<and> is_done u) ts"

definition spec_candidate :: "task list \<Rightarrow> task \<Rightarrow> bool" where
  "spec_candidate ts t =
     ((status t = Some ''pending'' \<or> status t = Some ''in-progress'')
      \<and> list_all (resolves_to_done ts) (dependency_list t))"

text \<open>The same, for the tasks that carry a dependency list.\<close>

definition listed_candidate :: "task list \<Rightarrow> task \<Rightarrow> bool" where
  "listed_candidate ts t = (dependencies t \<noteq> None \<and> spec_candidate ts t)"

text \<open>
  The ranking: higher priority first, then fewer dependencies, then lower id. The
  priorities rank high 3, low 1 and everything else, an absent priority included, as
  medium 2.
\<close>

definition priority_rank :: "task \<Rightarrow> int" where
  "priority_rank t =
     (if priority t = Some ''high'' then 3 else if priority t = Some ''low'' then 1 else 2)"

definition ranks_before :: "task \<Rightarrow> task \<Rightarrow> bool" where
  "ranks_before a b =
     (priority_rank a > priority_rank b
      \<or> (priority_rank a = priority_rank b
          \<and> (length (dependency_list a) < length (dependency_list b)
              \<or> (length (dependency_list a) = length (dependency_list b)
                  \<and> task_id a \<le> task_id b))))"

text \<open>A priority that is not the name of a member of \<^verbatim>\<open>Object.prototype\<close>.\<close>

definition plain_priority :: "task \<Rightarrow> bool" where
  "plain_priority t = (or_default (priority t) ''medium'' \<notin> set object_prototype_members)"

subsection \<open>Statuses, in the words of the specification\<close>

text \<open>
  A status normalizes to done when it is \<^verbatim>\<open>done\<close> or \<^verbatim>\<open>completed\<close> up to letter case;
  an absent status does not.
\<close>

definition status_normalizes_to_done :: "task \<Rightarrow> bool" where
  "status_normalizes_to_done t =
     (case status t of None \<Rightarrow> False | Some s \<Rightarrow> normalizes_to_done s)"

definition subtask_list :: "task \<Rightarrow> task list" where
  "subtask_list t = (case subtasks t of None \<Rightarrow> [] | Some sts \<Rightarrow> sts)"

subsection \<open>Dependence between tasks, in the words of the specification\<close>

text \<open>
  A task depends on the target id (\<open>depends_on allTasks target t\<close>) when the target is
  its parent or one of its dependencies, or when one of its dependencies, resolved to
  the first task with that id, depends on the target.
\<close>

inductive depends_on :: "task list \<Rightarrow> int \<Rightarrow> task \<Rightarrow> bool"
  for allTasks :: "task list" and target :: int where
  parent_edge:
    "parentTaskId t = Some target \<Longrightarrow> depends_on allTasks target t"
| direct_dependency:
    "dependencies t = Some deps \<Longrightarrow> target \<in> set deps \<Longrightarrow> depends_on allTasks target t"
| through_dependency:
    "dependencies t = Some deps \<Longrightarrow> depId \<in> set deps \<Longrightarrow>
     find (\<lambda>u. task_id u = depId) allTasks = Some depTask \<Longrightarrow>
     depends_on allTasks target depTask \<Longrightarrow> depends_on allTasks target t"


subsection \<open>updateSingleTaskStatus and setTaskStatus\<close>

text \<open>
  The cascade of the task branch: when the new status is done (or completed, in any
  letter case) and the task has at least one subtask, the subtasks that are not done
  (\<^verbatim>\<open>pendingSubtasks\<close>) receive the new status.
\<close>

definition mark_subtasks :: "string \<Rightarrow> task \<Rightarrow> task" where
  "mark_subtasks newStatus task =
     (case subtasks task of
        None \<Rightarrow> task
      | Some sts \<Rightarrow>
          if normalizes_to_done newStatus \<and> 0 < length sts then
            (let pendingSubtasks = filter (\<lambda>st. \<not> is_done st) sts in
             if 0 < length pendingSubtasks
             then set_subtasks
                    (Some (map (\<lambda>st. if \<not> is_done st then set_status newStatus st else st) sts))
                    task
             else task)
          else task)"

text \<open>
  The result is the task list after the mutation, and whether the two advisory lines
  ("All subtasks of parent task ... are now marked as done", "Consider updating the
  parent task status ...") were printed.
\<close>

definition updateSingleTaskStatus ::
  "string \<Rightarrow> string \<Rightarrow> task list \<Rightarrow> error + (task list \<times> bool)" where
  "updateSingleTaskStatus taskIdInput newStatus ts =
     (if CHR ''.'' \<in> set taskIdInput then
        (let segs = split_on CHR ''.'' taskIdInput;
             parentId = parse_segment segs 0;
             subtaskId = parse_segment segs 1
         in case find (\<lambda>t. Some (task_id t) = parentId) ts of
              None \<Rightarrow> Inl ParentTaskNotFound
            | Some parentTask \<Rightarrow>
               (case subtasks parentTask of
                  None \<Rightarrow> Inl ParentHasNoSubtasks
                | Some sts \<Rightarrow>
                   (case find (\<lambda>st. Some (task_id st) = subtaskId) sts of
                      None \<Rightarrow> Inl SubtaskNotFound
                    | Some subtask \<Rightarrow>
                       (let sts' = update_first (\<lambda>st. Some (task_id st) = subtaskId)
                                     (set_status newStatus) sts;
                            allSubtasksDone = list_all is_done sts';
                            advisory = (normalizes_to_done newStatus \<and> allSubtasksDone
                                        \<and> \<not> is_done parentTask)
                        in Inr (update_first (\<lambda>t. Some (task_id t) = parentId)
                                  (set_subtasks (Some sts')) ts, advisory)))))
      else
        (let taskId = parseInt taskIdInput
         in case find (\<lambda>t. Some (task_id t) = taskId) ts of
              None \<Rightarrow> Inl TaskNotFound
            | Some task \<Rightarrow>
                Inr (update_first (\<lambda>t. Some (task_id t) = taskId)
                       (\<lambda>t. mark_subtasks newStatus (set_status newStatus t)) ts, False)))"

text \<open>
  The loop of \<^verbatim>\<open>setTaskStatus\<close> over the ids: an exception of
  \<^verbatim>\<open>updateSingleTaskStatus\<close> leaves the loop (there is no handler inside it).
\<close>

fun update_each ::
  "string list \<Rightarrow> string \<Rightarrow> task list \<Rightarrow> string list \<Rightarrow> error + (task list \<times> string list)" where
  "update_each [] newStatus ts updatedTasks = Inr (ts, updatedTasks)"
| "update_each (i # ids) newStatus ts updatedTasks =
     (case updateSingleTaskStatus i newStatus ts of
        Inl e \<Rightarrow> Inl e
      | Inr (ts', advisory) \<Rightarrow> update_each ids newStatus ts' (updatedTasks @ [i]))"

text \<open>
  \<^verbatim>\<open>setTaskStatus\<close> up to \<^verbatim>\<open>writeJSON\<close>. The handler of the whole function logs the
  error and calls \<^verbatim>\<open>process.exit(1)\<close>: nothing has been written then. The outcome is the
  error, or the list \<^verbatim>\<open>updatedTasks\<close>; the store of a successful run is the document
  handed to \<^verbatim>\<open>writeJSON\<close>.
\<close>

definition setTaskStatus :: "store \<Rightarrow> string \<Rightarrow> string \<Rightarrow> (error + string list) \<times> store" where
  "setTaskStatus st taskIdInput newStatus =
     (case st of
        None \<Rightarrow> (Inl NoValidTasks, st)
      | Some data \<Rightarrow>
         (case tasks data of
            None \<Rightarrow> (Inl NoValidTasks, st)
          | Some ts \<Rightarrow>
             (let taskIds = map trim (split_on CHR '','' taskIdInput)
              in case update_each taskIds newStatus ts [] of
                   Inl e \<Rightarrow> (Inl e, st)
                 | Inr (ts', updatedTasks) \<Rightarrow> (Inr updatedTasks, Some (set_tasks ts' data)))))"

subsection \<open>isTaskDependentOn\<close>

text \<open>
  A \<^verbatim>\<open>for\<close> loop that returns \<^verbatim>\<open>true\<close> at the first element whose test is true. The test
  may fail to return (\<open>None\<close>), and then so does the loop.
\<close>

fun first_true :: "('a \<Rightarrow> bool option) \<Rightarrow> 'a list \<Rightarrow> bool option" where
  "first_true f [] = Some False"
| "first_true f (x # xs) =
     (case f x of None \<Rightarrow> None | Some True \<Rightarrow> Some True | Some False \<Rightarrow> first_true f xs)"

text \<open>
  The recursion follows dependency ids through \<^verbatim>\<open>allTasks\<close> and has no visited set, so
  on a cyclic dependency graph it may never return: the call stack overflows
  (\<^verbatim>\<open>RangeError\<close>). The first argument is the number of nested calls the stack can
  hold; \<open>None\<close> is the overflow.
\<close>

fun isTaskDependentOn :: "nat \<Rightarrow> task list \<Rightarrow> task \<Rightarrow> int \<Rightarrow> bool option" where
  "isTaskDependentOn 0 allTasks task targetTaskId = None"
| "isTaskDependentOn (Suc depth) allTasks task targetTaskId =
     (if parentTaskId task = Some targetTaskId then Some True
      else if (case dependencies task of None \<Rightarrow> False | Some deps \<Rightarrow> targetTaskId \<in> set deps)
      then Some True
      else (case first_true
                   (\<lambda>depId. case find (\<lambda>t. task_id t = depId) allTasks of
                              None \<Rightarrow> Some False
                            | Some depTask \<Rightarrow> isTaskDependentOn depth allTasks depTask targetTaskId)
                   (case dependencies task of None \<Rightarrow> [] | Some deps \<Rightarrow> deps) of
              None \<Rightarrow> None
            | Some True \<Rightarrow> Some True
            | Some False \<Rightarrow>
                first_true (\<lambda>subtask. isTaskDependentOn depth allTasks subtask targetTaskId)
                  (case subtasks task of None \<Rightarrow> [] | Some sts \<Rightarrow> sts)))"

subsection \<open>addSubtask\<close>

text \<open>The payload \<^verbatim>\<open>newSubtaskData\<close>.\<close>

datatype newSubtaskData = NewSubtaskData
  (new_title: "string option")
  (new_description: "string option")
  (new_details: "string option")
  (new_status: "string option")
  (new_dependencies: "int list option")

text \<open>\<^verbatim>\<open>parentTask.subtasks.length > 0 ? Math.max(...parentTask.subtasks.map(st => st.id)) : 0\<close>\<close>

definition highestSubtaskId :: "task list \<Rightarrow> int" where
  "highestSubtaskId sts =
     (if 0 < length sts
      then (case math_max (map task_id sts) of Some m \<Rightarrow> m | None \<Rightarrow> 0)
      else 0)"

text \<open>\<^verbatim>\<open>if (existingTask.parentTaskId)\<close>: an absent parent id and the id 0 are falsy.\<close>

definition has_parentTaskId :: "task \<Rightarrow> bool" where
  "has_parentTaskId t = (case parentTaskId t of None \<Rightarrow> False | Some p \<Rightarrow> p \<noteq> 0)"

text \<open>\<^verbatim>\<open>{ ...existingTask, id: newSubtaskId, parentTaskId: parentIdNum }\<close>\<close>

fun as_subtask :: "int \<Rightarrow> int \<Rightarrow> task \<Rightarrow> task" where
  "as_subtask newSubtaskId parentIdNum (Task i ti de dt ts st pr dp sb pa) =
     Task newSubtaskId ti de dt ts st pr dp sb (Some parentIdNum)"

text \<open>
  \<^verbatim>\<open>addSubtask\<close> up to \<^verbatim>\<open>writeJSON\<close>; the handler logs and rethrows. The first argument
  is the stack depth available to \<^verbatim>\<open>isTaskDependentOn\<close>. The document is read into a
  local variable: the initialisation of \<^verbatim>\<open>parentTask.subtasks\<close> and every later mutation
  reach \<^verbatim>\<open>tasks.json\<close> only through \<^verbatim>\<open>writeJSON\<close>.
\<close>

definition addSubtask ::
  "nat \<Rightarrow> store \<Rightarrow> string \<Rightarrow> string option \<Rightarrow> newSubtaskData option \<Rightarrow> (error + task) \<times> store" where
  "addSubtask depth st parentId existingTaskId newSubtaskData =
     (case st of
        None \<Rightarrow> (Inl NoValidTasks, st)
      | Some data \<Rightarrow>
       (case tasks data of
          None \<Rightarrow> (Inl NoValidTasks, st)
        | Some ts0 \<Rightarrow>
         (let parentIdNum = parseInt parentId
          in case find (\<lambda>t. Some (task_id t) = parentIdNum) ts0 of
               None \<Rightarrow> (Inl ParentTaskNotFound, st)
             | Some parentTask0 \<Rightarrow>
              (let siblings = (case subtasks parentTask0 of None \<Rightarrow> [] | Some sts \<Rightarrow> sts);
                   parentTask = set_subtasks (Some siblings) parentTask0;
                   ts = update_first (\<lambda>t. Some (task_id t) = parentIdNum)
                          (set_subtasks (Some siblings)) ts0
               in case existingTaskId of
                    Some existing \<Rightarrow>
                     (let existingTaskIdNum = parseInt existing
                      in case find (\<lambda>t. Some (task_id t) = existingTaskIdNum) ts of
                           None \<Rightarrow> (Inl TaskNotFound, st)
                         | Some existingTask \<Rightarrow>
                            if has_parentTaskId existingTask then (Inl AlreadySubtask, st)
                            else if existingTaskIdNum = parentIdNum then (Inl SelfReference, st)
                            else (case isTaskDependentOn depth ts parentTask (task_id existingTask) of
                                    None \<Rightarrow> (Inl StackOverflow, st)
                                  | Some True \<Rightarrow> (Inl CircularConversion, st)
                                  | Some False \<Rightarrow>
                                     (let newSubtaskId = highestSubtaskId siblings + 1;
                                          newSubtask = as_subtask newSubtaskId (task_id parentTask)
                                                         existingTask;
                                          ts' = remove_first (\<lambda>t. Some (task_id t) = existingTaskIdNum)
                                                  (update_first (\<lambda>t. Some (task_id t) = parentIdNum)
                                                     (set_subtasks (Some (siblings @ [newSubtask]))) ts)
                                      in (Inr newSubtask, Some (set_tasks ts' data)))))
                  | None \<Rightarrow>
                     (case newSubtaskData of
                        Some d \<Rightarrow>
                         (let newSubtaskId = highestSubtaskId siblings + 1;
                              newSubtask = Task newSubtaskId (new_title d)
                                             (Some (or_default (new_description d) ''''))
                                             (Some (or_default (new_details d) ''''))
                                             None
                                             (Some (or_default (new_status d) ''pending''))
                                             None
                                             (Some (case new_dependencies d of
                                                      None \<Rightarrow> [] | Some deps \<Rightarrow> deps))
                                             None
                                             (Some (task_id parentTask));
                              ts' = update_first (\<lambda>t. Some (task_id t) = parentIdNum)
                                      (set_subtasks (Some (siblings @ [newSubtask]))) ts
                          in (Inr newSubtask, Some (set_tasks ts' data)))
                      | None \<Rightarrow> (Inl NeitherTaskNorData, st))))))"

text \<open>The address in the log line \<^verbatim>\<open>Created new subtask ${parentIdNum}.${newSubtaskId}\<close>.\<close>

definition subtask_address :: "int \<Rightarrow> int \<Rightarrow> string" where
  "subtask_address parentIdNum newSubtaskId =
     string_of_int parentIdNum @ ''.'' @ string_of_int newSubtaskId"

subsection \<open>removeSubtask\<close>

text \<open>
  The task built from the removed subtask. Its priority is read from the parent
  (\<^verbatim>\<open>priority: parentTask.priority || 'medium' // Inherit priority from parent\<close>); the
  subtask's own priority, test strategy and parent id are not copied.
\<close>

definition convertedTask :: "int \<Rightarrow> int \<Rightarrow> task \<Rightarrow> task \<Rightarrow> task" where
  "convertedTask newTaskId parentId parentTask removedSubtask =
     (let deps = (case dependencies removedSubtask of None \<Rightarrow> [] | Some ds \<Rightarrow> ds)
      in Task newTaskId
           (title removedSubtask)
           (Some (or_default (description removedSubtask) ''''))
           (Some (or_default (details removedSubtask) ''''))
           None
           (Some (or_default (status removedSubtask) ''pending''))
           (Some (or_default (priority parentTask) ''medium''))
           (Some (if parentId \<in> set deps then deps else deps @ [parentId]))
           None
           None)"

text \<open>
  \<^verbatim>\<open>removeSubtask\<close> up to \<^verbatim>\<open>writeJSON\<close>; the handler logs and rethrows. The outcome is
  the converted task, or \<^verbatim>\<open>null\<close> when the subtask is only deleted.
\<close>

definition removeSubtask :: "store \<Rightarrow> string \<Rightarrow> bool \<Rightarrow> (error + task option) \<times> store" where
  "removeSubtask st subtaskId convertToTask =
     (case st of
        None \<Rightarrow> (Inl NoValidTasks, st)
      | Some data \<Rightarrow>
       (case tasks data of
          None \<Rightarrow> (Inl NoValidTasks, st)
        | Some ts \<Rightarrow>
          if CHR ''.'' \<notin> set subtaskId then (Inl InvalidSubtaskIdFormat, st)
          else
           (let segs = split_on CHR ''.'' subtaskId;
                parentId = parse_segment segs 0;
                subtaskIdNum = parse_segment segs 1
            in case find (\<lambda>t. Some (task_id t) = parentId) ts of
                 None \<Rightarrow> (Inl ParentTaskNotFound, st)
               | Some parentTask \<Rightarrow>
                 (case subtasks parentTask of
                    None \<Rightarrow> (Inl ParentHasNoSubtasks, st)
                  | Some sts \<Rightarrow>
                    if length sts = 0 then (Inl ParentHasNoSubtasks, st)
                    else
                     (case find (\<lambda>s. Some (task_id s) = subtaskIdNum) sts of
                        None \<Rightarrow> (Inl SubtaskNotFound, st)
                      | Some removedSubtask \<Rightarrow>
                         (let remaining = remove_first (\<lambda>s. Some (task_id s) = subtaskIdNum) sts;
                              ts1 = update_first (\<lambda>t. Some (task_id t) = parentId)
                                      (set_subtasks (if length remaining = 0 then None
                                                     else Some remaining)) ts
                          in if convertToTask then
                               (case math_max (map task_id ts1) of
                                  None \<Rightarrow> (Inl NonFiniteTaskId, st)
                                | Some highestId \<Rightarrow>
                                   (let newTaskId = highestId + 1;
                                        converted = convertedTask newTaskId (task_id parentTask)
                                                      parentTask removedSubtask
                                    in (Inr (Some converted),
                                        Some (set_tasks (ts1 @ [converted]) data))))
                             else (Inr None, Some (set_tasks ts1 data))))))))"

subsection \<open>addTask\<close>

text \<open>The object parsed from the generated text.\<close>

datatype taskData = TaskData
  (gen_title: "string option")
  (gen_description: "string option")
  (gen_details: "string option")
  (gen_testStrategy: "string option")

text \<open>\<^verbatim>\<open>!taskData.title\<close>\<close>

definition falsy :: "string option \<Rightarrow> bool" where
  "falsy v = (case v of None \<Rightarrow> True | Some s \<Rightarrow> s = [])"

text \<open>
  The two filters over the supplied dependencies; the warning
  "The following dependencies do not exist" is logged when \<open>invalidDeps\<close> is not empty.
\<close>

definition invalidDeps :: "task list \<Rightarrow> int list \<Rightarrow> int list" where
  "invalidDeps ts deps = filter (\<lambda>depId. \<not> list_ex (\<lambda>t. task_id t = depId) ts) deps"

definition keptDependencies :: "task list \<Rightarrow> int list \<Rightarrow> int list" where
  "keptDependencies ts deps =
     (if 0 < length (invalidDeps ts deps)
      then filter (\<lambda>depId. depId \<notin> set (invalidDeps ts deps)) deps
      else deps)"

text \<open>
  \<^verbatim>\<open>addTask\<close>. Its surroundings are parameters: \<open>validateAndFix\<close> is
  \<^verbatim>\<open>validateAndFixDependencies\<close> of the dependency manager, which runs on the document after
  the new task has been appended; \<open>generated\<close> is the object parsed from the text
  generator's answer, \<open>None\<close> when the request or the parsing fails. Every failure ends in
  \<^verbatim>\<open>process.exit(1)\<close> before \<^verbatim>\<open>writeJSON\<close>. The outcome is the new id together with the
  dependencies named in the warning. On an empty task list \<^verbatim>\<open>Math.max()\<close> is
  \<^verbatim>\<open>-Infinity\<close> and the source goes on with that id; the model, whose ids are integers,
  does not follow it there and marks the run with \<open>NonFiniteTaskId\<close>.
\<close>

definition addTask ::
  "(document \<Rightarrow> document) \<Rightarrow> taskData option \<Rightarrow> store \<Rightarrow> int list \<Rightarrow> string
     \<Rightarrow> (error + (int \<times> int list)) \<times> store" where
  "addTask validateAndFix generated st deps0 priority0 =
     (case st of
        None \<Rightarrow> (Inl NoValidTasks, st)
      | Some data \<Rightarrow>
       (case tasks data of
          None \<Rightarrow> (Inl NoValidTasks, st)
        | Some ts \<Rightarrow>
         (case math_max (map task_id ts) of
            None \<Rightarrow> (Inl NonFiniteTaskId, st)
          | Some highestId \<Rightarrow>
            (let newTaskId = highestId + 1;
                 warned = invalidDeps ts deps0;
                 deps = keptDependencies ts deps0
             in case generated of
                  None \<Rightarrow> (Inl GeneratedTaskInvalid, st)
                | Some td \<Rightarrow>
                   if falsy (gen_title td) \<or> falsy (gen_description td)
                   then (Inl GeneratedTaskInvalid, st)
                   else
                    (let newTask = Task newTaskId
                                     (gen_title td)
                                     (gen_description td)
                                     (Some (or_default (gen_details td) ''''))
                                     (Some (or_default (gen_testStrategy td)
                                        ''Manually verify the implementation works as expected.''))
                                     (Some ''pending'')
                                     (Some priority0)
                                     (Some deps)
                                     None
                                     None
                     in (Inr (newTaskId, warned),
                         Some (validateAndFix (set_tasks (ts @ [newTask]) data))))))))"

subsection \<open>Records returned by the text generator\<close>

text \<open>
  The values \<^verbatim>\<open>JSON.parse\<close> produces. An object is the list of its properties in
  order, each key once; numbers are rationals, which hold every finite double.
\<close>

datatype json =
    JNull
  | JBool bool
  | JNum rat
  | JStr string
  | JArr "json list"
  | JObj "(string \<times> json) list"

text \<open>Property access on a parsed object; an array has none of the record's properties.\<close>

fun get_prop :: "json \<Rightarrow> string \<Rightarrow> json option" where
  "get_prop (JObj kvs) k = map_of kvs k"
| "get_prop j k = None"

fun truthy :: "json \<Rightarrow> bool" where
  "truthy JNull = False"
| "truthy (JBool b) = b"
| "truthy (JNum n) = (n \<noteq> 0)"
| "truthy (JStr s) = (s \<noteq> [])"
| "truthy (JArr xs) = True"
| "truthy (JObj kvs) = True"

text \<open>\<^verbatim>\<open>v || d\<close> on a property that may be absent.\<close>

definition or_json :: "json option \<Rightarrow> json \<Rightarrow> json" where
  "or_json v d = (case v of None \<Rightarrow> d | Some j \<Rightarrow> if truthy j then j else d)"

text \<open>\<^verbatim>\<open>typeof x === 'number'\<close>\<close>

fun is_number :: "json \<Rightarrow> bool" where
  "is_number (JNum n) = True"
| "is_number j = False"

text \<open>\<^verbatim>\<open>typeof x !== 'object' || x === null\<close> is false: objects and arrays.\<close>

fun is_object :: "json \<Rightarrow> bool" where
  "is_object (JObj kvs) = True"
| "is_object (JArr xs) = True"
| "is_object j = False"

text \<open>The object literal that \<^verbatim>\<open>parseSubtasksFromText\<close> builds for one record.\<close>

datatype validated = Validated
  (v_id: rat)
  (v_title: json)
  (v_description: json)
  (v_status: string)
  (v_dependencies: "json list")
  (v_priority: json)
  (v_details: json)
  (v_testStrategy: json)

text \<open>
  The callback of \<^verbatim>\<open>parsed.map\<close>: \<open>None\<close> is the \<^verbatim>\<open>null\<close> of a skipped entry, which the
  following \<^verbatim>\<open>filter\<close> removes.
\<close>

definition validate_subtask :: "int \<Rightarrow> nat \<Rightarrow> json \<Rightarrow> validated option" where
  "validate_subtask startId index subtask =
     (let expectedId = startId + int index
      in if \<not> is_object subtask then None
         else Some (Validated
                (case get_prop subtask ''id'' of Some (JNum n) \<Rightarrow> n | _ \<Rightarrow> of_int expectedId)
                (or_json (get_prop subtask ''title'') (JStr (''Subtask '' @ string_of_int expectedId)))
                (or_json (get_prop subtask ''description'') (JStr ''No description provided.''))
                ''pending''
                (case get_prop subtask ''dependencies'' of
                   Some (JArr deps) \<Rightarrow> filter is_number deps
                 | _ \<Rightarrow> [])
                (or_json (get_prop subtask ''priority'') (JStr ''medium''))
                (or_json (get_prop subtask ''details'') (JStr ''No details provided.''))
                (or_json (get_prop subtask ''testStrategy'') (JStr ''Manual verification.''))))"

definition validatedSubtasks :: "int \<Rightarrow> json list \<Rightarrow> validated list" where
  "validatedSubtasks startId parsed =
     List.map_filter (\<lambda>(index, subtask). validate_subtask startId index subtask)
       (enumerate 0 parsed)"

text \<open>
  \<^verbatim>\<open>parseSubtasksFromText\<close> from the value of \<^verbatim>\<open>JSON.parse(cleanText)\<close> on; \<open>None\<close> stands
  for a response that is empty, holds no bracketed array or does not parse. Every
  exception is caught by the function, which then returns the empty list.
\<close>

definition parseSubtasksFromText :: "json option \<Rightarrow> int \<Rightarrow> nat \<Rightarrow> validated list" where
  "parseSubtasksFromText parsed startId expectedCount =
     (case parsed of
        Some (JArr records) \<Rightarrow>
          (let validated = validatedSubtasks startId records
           in if length validated = 0 \<and> 0 < expectedCount then [] else validated)
      | _ \<Rightarrow> [])"

text \<open>
  \<^verbatim>\<open>processApiResponse\<close> from the value of \<^verbatim>\<open>JSON.parse(jsonContent)\<close> on, for the task
  records generated from a requirements document. The only check is that \<^verbatim>\<open>tasks\<close> is an
  array; \<open>metadata\<close> is the default metadata object, added when the answer has none.
  A failed answer ends, after the retries, in an exception. \<^verbatim>\<open>parsePRD\<close> hands the
  result to \<^verbatim>\<open>writeJSON\<close> as it is.
\<close>

datatype response_error = NoValidJson | NoTasksArray

definition processApiResponse :: "json option \<Rightarrow> json \<Rightarrow> response_error + json" where
  "processApiResponse parsed metadata =
     (case parsed of
        None \<Rightarrow> Inl NoValidJson
      | Some parsedData \<Rightarrow>
         (case get_prop parsedData ''tasks'' of
            Some (JArr records) \<Rightarrow>
              (case parsedData of
                 JObj kvs \<Rightarrow>
                   if (case map_of kvs ''metadata'' of None \<Rightarrow> False | Some m \<Rightarrow> truthy m)
                   then Inr parsedData
                   else Inr (JObj (AList.update ''metadata'' metadata kvs))
               | _ \<Rightarrow> Inl NoTasksArray)
          | _ \<Rightarrow> Inl NoTasksArray))"

text \<open>The task records that \<^verbatim>\<open>parsePRD\<close> writes to \<^verbatim>\<open>tasks.json\<close>.\<close>

definition admitted_tasks :: "json option \<Rightarrow> json \<Rightarrow> json list" where
  "admitted_tasks parsed metadata =
     (case processApiResponse parsed metadata of
        Inr written \<Rightarrow> (case get_prop written ''tasks'' of Some (JArr records) \<Rightarrow> records | _ \<Rightarrow> [])
      | Inl e \<Rightarrow> [])"

subsection \<open>Example documents\<close>

text \<open>The scenario of the selection contract: task 1 is done, tasks 2 and 3 depend on it.\<close>

definition scenario_task1 :: task where
  "scenario_task1 = Task 1 (Some ''one'') None None None (Some ''done'') None (Some []) None None"

definition scenario_task2 :: task where
  "scenario_task2 =
     Task 2 (Some ''two'') None None None (Some ''pending'') (Some ''high'') (Some [1]) None None"

definition scenario_task3 :: task where
  "scenario_task3 =
     Task 3 (Some ''three'') None None None (Some ''pending'') (Some ''low'') (Some [1]) None None"

definition scenario_tasks :: "task list" where
  "scenario_tasks = [scenario_task1, scenario_task2, scenario_task3]"

text \<open>A pending task of high priority whose \<^verbatim>\<open>dependencies\<close> property is absent.\<close>

definition unlisted_task :: task where
  "unlisted_task =
     Task 4 (Some ''four'') None None None (Some ''pending'') (Some ''high'') None None None"

text \<open>
  A finished task whose only subtask is pending and depends on nothing; a low-priority
  task and a task whose priority is the name of a prototype member.
\<close>

definition pending_subtask :: task where
  "pending_subtask =
     Task 1 (Some ''part'') None None None (Some ''pending'') None (Some []) None (Some 1)"

definition finished_parent :: task where
  "finished_parent =
     Task 1 (Some ''whole'') None None None (Some ''done'') None (Some [])
       (Some [pending_subtask]) None"

definition low_task :: task where
  "low_task = Task 1 (Some ''one'') None None None (Some ''pending'') (Some ''low'') (Some []) None None"

definition member_task :: task where
  "member_task =
     Task 2 (Some ''two'') None None None (Some ''pending'') (Some ''toString'') (Some []) None None"

text \<open>
  A project whose highest task id is 5. Task 2 has low priority and two subtasks:
  2.1 is pending with high priority, 2.2 is done.
\<close>

definition subtask_2_1 :: task where
  "subtask_2_1 =
     Task 1 (Some ''first'') (Some ''d'') None (Some ''check'') (Some ''pending'') (Some ''high'')
       (Some [1]) None (Some 2)"

definition subtask_2_2 :: task where
  "subtask_2_2 =
     Task 2 (Some ''second'') None None None (Some ''done'') None (Some []) None (Some 2)"

definition project_task2 :: task where
  "project_task2 =
     Task 2 (Some ''two'') None None None (Some ''pending'') (Some ''low'') (Some [1])
       (Some [subtask_2_1, subtask_2_2]) None"

definition project_task5 :: task where
  "project_task5 =
     Task 5 (Some ''five'') None None None (Some ''pending'') None (Some [2]) None None"

definition project_tasks :: "task list" where
  "project_tasks = [scenario_task1, project_task2, project_task5]"

definition project :: store where
  "project = Some (Document (Some project_tasks) ''meta'')"

definition scenario :: store where
  "scenario = Some (Document (Some scenario_tasks) ''meta'')"

text \<open>The scenario tasks after task 2 alone, and after tasks 2 and 3, have been set to done.\<close>

definition scenario_tasks_2_done :: "task list" where
  "scenario_tasks_2_done = [scenario_task1, set_status ''done'' scenario_task2, scenario_task3]"

definition scenario_tasks_2_3_done :: "task list" where
  "scenario_tasks_2_3_done =
     [scenario_task1, set_status ''done'' scenario_task2, set_status ''done'' scenario_task3]"

text \<open>The project after task 2 has been set to done, and after subtask 2.1 has.\<close>

definition project_task2_done :: task where
  "project_task2_done =
     set_subtasks (Some [set_status ''done'' subtask_2_1, subtask_2_2])
       (set_status ''done'' project_task2)"

definition project_task2_sub_done :: task where
  "project_task2_sub_done =
     set_subtasks (Some [set_status ''done'' subtask_2_1, subtask_2_2]) project_task2"


definition cyclic_task1 :: task where
  "cyclic_task1 =
     Task 1 (Some ''one'') None None None (Some ''pending'') None (Some [2, 4]) (Some []) None"

definition cyclic_task2 :: task where
  "cyclic_task2 =
     Task 2 (Some ''two'') None None None (Some ''pending'') None (Some [1]) None None"

definition cyclic_tasks :: "task list" where
  "cyclic_tasks =
     [cyclic_task1, cyclic_task2,
      Task 3 (Some ''three'') None None None (Some ''pending'') None (Some []) None None,
      Task 4 (Some ''four'') None None None (Some ''pending'') None (Some [3]) None None]"

definition cyclic :: store where
  "cyclic = Some (Document (Some cyclic_tasks) ''meta'')"

text \<open>
  An answer of the text generator with three records: one that claims to be done and
  lists a string and \<^verbatim>\<open>null\<close> among its dependencies, a bare number, and one without
  title, status or dependencies.
\<close>

definition generated_records :: "json list" where
  "generated_records =
     [JObj [(''title'', JStr ''a''), (''status'', JStr ''done''),
            (''dependencies'', JArr [JNum 1, JStr ''2'', JNull])],
      JNum 5,
      JObj [(''description'', JStr ''b'')]]"

definition validated_first :: validated where
  "validated_first =
     Validated 4 (JStr ''a'') (JStr ''No description provided.'') ''pending'' [JNum 1]
       (JStr ''medium'') (JStr ''No details provided.'') (JStr ''Manual verification.'')"

definition validated_third :: validated where
  "validated_third =
     Validated 6 (JStr ''Subtask 6'') (JStr ''b'') ''pending'' []
       (JStr ''medium'') (JStr ''No details provided.'') (JStr ''Manual verification.'')"

text \<open>The task converted from subtask 2.1 of the project, and the task added to the scenario.\<close>

definition converted_2_1 :: task where
  "converted_2_1 =
     Task 6 (Some ''first'') (Some ''d'') (Some []) None (Some ''pending'') (Some ''low'')
       (Some [1, 2]) None None"

definition added_task :: task where
  "added_task =
     Task 4 (Some ''t'') (Some ''d'') (Some [])
       (Some ''Manually verify the implementation works as expected.'')
       (Some ''pending'') (Some ''high'') (Some [1, 3]) None None"

section \<open>Properties\<close>

subsection \<open>Library functions\<close>

lemma set_insert_cmp: "set (insert_cmp c x ys) = insert x (set ys)"
  by (induction ys) auto

lemma set_sort_cmp: "set (sort_cmp c xs) = set xs"
  by (induction xs) (auto simp: sort_cmp_def set_insert_cmp)

lemma sort_cmp_Nil: "sort_cmp c xs = [] \<longleftrightarrow> xs = []"
  using set_sort_cmp[of c xs] by (metis set_empty)

lemma hd_insert_cmp:
  "hd (insert_cmp c x ys) = (if ys = [] \<or> sort_compare c x (hd ys) \<le> 0 then x else hd ys)"
  by (cases ys) auto

subsection \<open>findNextTask\<close>

lemma set_eligibleTasks: "set (eligibleTasks ts) \<subseteq> set ts"
  by (auto simp: eligibleTasks_def)

lemma eligibleTasks_dependencies: "t \<in> set (eligibleTasks ts) \<Longrightarrow> dependencies t \<noteq> None"
  by (auto simp: eligibleTasks_def split: option.splits)

lemma findNextTask_eligible: "findNextTask ts = Some t \<Longrightarrow> t \<in> set (eligibleTasks ts)"
  unfolding findNextTask_def Let_def
  by (metis hd_in_set length_0_conv option.distinct(1) option.inject set_sort_cmp sort_cmp_Nil)

lemma findNextTask_None: "findNextTask ts = None \<longleftrightarrow> eligibleTasks ts = []"
  by (simp add: findNextTask_def Let_def)

lemma completedTaskIds_iff: "d \<in> completedTaskIds ts \<longleftrightarrow> resolves_to_done ts d"
  by (auto simp: completedTaskIds_def resolves_to_done_def list_ex_iff)

lemma eligibleTasks_iff:
  "t \<in> set (eligibleTasks ts) \<longleftrightarrow> t \<in> set ts \<and> listed_candidate ts t"
  by (auto simp: eligibleTasks_def listed_candidate_def spec_candidate_def dependency_list_def
      completedTaskIds_iff list_all_iff split: option.splits)

lemma priorityValue_plain: "plain_priority t \<Longrightarrow> priorityValue t = Number (priority_rank t)"
  by (auto simp: plain_priority_def priorityValue_def priority_rank_def priorityValues_def
      or_default_def Let_def split: option.splits if_splits)

lemma compareTasks_le:
  "dependencies a \<noteq> None \<Longrightarrow> dependencies b \<noteq> None \<Longrightarrow>
   plain_priority a \<Longrightarrow> plain_priority b \<Longrightarrow>
   sort_compare compareTasks a b \<le> 0 \<longleftrightarrow> ranks_before a b"
  by (auto simp: sort_compare_def compareTasks_def priorityValue_plain ranks_before_def
      dependency_list_def Let_def split: if_splits)

lemma ranks_before_total: "ranks_before a b \<or> ranks_before b a"
  by (auto simp: ranks_before_def)

lemma ranks_before_trans: "ranks_before a b \<Longrightarrow> ranks_before b c \<Longrightarrow> ranks_before a c"
  unfolding ranks_before_def by linarith

lemma ranks_before_strict:
  "ranks_before a b \<Longrightarrow> task_id a \<noteq> task_id b \<Longrightarrow> \<not> ranks_before b a"
  unfolding ranks_before_def by linarith

text \<open>The first element of the sorted list ranks before every element.\<close>

lemma hd_sort_cmp_ranks_before:
  assumes "\<forall>x\<in>set xs. dependencies x \<noteq> None \<and> plain_priority x" and "y \<in> set xs"
  shows "ranks_before (hd (sort_cmp compareTasks xs)) y"
  using assms
proof (induction xs arbitrary: y)
  case Nil
  then show ?case by simp
next
  case (Cons x xs)
  let ?s = "sort_cmp compareTasks xs"
  have step: "sort_cmp compareTasks (x # xs) = insert_cmp compareTasks x ?s"
    by (simp add: sort_cmp_def)
  show ?case
  proof (cases "xs = []")
    case True
    with Cons.prems show ?thesis
      using ranks_before_total[of x x] by (simp add: sort_cmp_def)
  next
    case False
    then have ne: "?s \<noteq> []" by (simp add: sort_cmp_Nil)
    then have hin: "hd ?s \<in> set xs"
      using set_sort_cmp[of compareTasks xs] hd_in_set by blast
    have hmin: "\<And>z. z \<in> set xs \<Longrightarrow> ranks_before (hd ?s) z"
      using Cons.IH Cons.prems(1) by simp
    have dx: "dependencies x \<noteq> None" and dh: "dependencies (hd ?s) \<noteq> None"
      and px: "plain_priority x" and ph: "plain_priority (hd ?s)"
      using Cons.prems(1) hin by auto
    show ?thesis
    proof (cases "sort_compare compareTasks x (hd ?s) \<le> 0")
      case True
      then have xh: "ranks_before x (hd ?s)" using compareTasks_le[OF dx dh px ph] by simp
      have "hd (sort_cmp compareTasks (x # xs)) = x"
        using True ne by (simp add: step hd_insert_cmp)
      moreover have "ranks_before x y"
      proof (cases "y = x")
        case True
        then show ?thesis using ranks_before_total[of x x] by simp
      next
        case False
        then have "y \<in> set xs" using Cons.prems(2) by simp
        then show ?thesis using hmin xh ranks_before_trans by blast
      qed
      ultimately show ?thesis by simp
    next
      case False
      then have hx: "ranks_before (hd ?s) x"
        using compareTasks_le[OF dx dh px ph] ranks_before_total[of x "hd ?s"] by blast
      have "hd (sort_cmp compareTasks (x # xs)) = hd ?s"
        using False ne by (simp add: step hd_insert_cmp)
      moreover have "ranks_before (hd ?s) y"
        using Cons.prems(2) hx hmin by auto
      ultimately show ?thesis by simp
    qed
  qed
qed

lemma findNextTask_ranks_before:
  assumes "findNextTask ts = Some t" and "u \<in> set (eligibleTasks ts)"
    and "\<forall>x\<in>set (eligibleTasks ts). plain_priority x"
  shows "ranks_before t u"
proof -
  have "t = hd (sort_cmp compareTasks (eligibleTasks ts))"
    using assms(1) by (auto simp: findNextTask_def Let_def split: if_splits)
  then show ?thesis
    using hd_sort_cmp_ranks_before[of "eligibleTasks ts" u] eligibleTasks_dependencies assms(2,3)
    by blast
qed

lemmas scenario_defs =
  scenario_tasks_def scenario_task1_def scenario_task2_def scenario_task3_def unlisted_task_def

lemmas findNextTask_defs =
  findNextTask_def eligibleTasks_def completedTaskIds_def is_done_def sort_cmp_def
  sort_compare_def compareTasks_def priorityValue_def priorityValues_def
  object_prototype_members_def or_default_def

lemma findNextTask_scenario: "findNextTask scenario_tasks = Some scenario_task2"
  by (simp add: findNextTask_defs scenario_defs)

text \<open>
  Claim C10. A task whose \<^verbatim>\<open>dependencies\<close> property is absent is never the result of
  \<^verbatim>\<open>findNextTask\<close>, whatever its status and priority, and the result is always one of the
  top-level tasks handed to the function (never one of their subtasks).
\<close>

theorem findNextTask_needs_dependencies:
  "(dependencies t = None \<longrightarrow> findNextTask ts \<noteq> Some t)
   \<and> (findNextTask ts = Some t \<longrightarrow> t \<in> set ts)"
  using findNextTask_eligible[of ts t] eligibleTasks_dependencies[of t ts] set_eligibleTasks[of ts]
  by auto

theorem findNextTask_needs_dependencies_witness:
  "dependencies unlisted_task = None
   \<and> status unlisted_task = Some ''pending''
   \<and> findNextTask (unlisted_task # scenario_tasks) \<noteq> Some unlisted_task
   \<and> findNextTask (unlisted_task # scenario_tasks) = Some scenario_task2
   \<and> scenario_task2 \<in> set (unlisted_task # scenario_tasks)"
proof -
  have d: "dependencies unlisted_task = None" and s: "status unlisted_task = Some ''pending''"
    by (simp_all add: unlisted_task_def)
  have r: "findNextTask (unlisted_task # scenario_tasks) = Some scenario_task2"
    by (simp add: findNextTask_defs scenario_defs)
  from d s r
    findNextTask_needs_dependencies[of unlisted_task "unlisted_task # scenario_tasks"]
    findNextTask_needs_dependencies[of scenario_task2 "unlisted_task # scenario_tasks"]
  show ?thesis by blast
qed

text \<open>
  Claim C3, as amended. \<^verbatim>\<open>findNextTask\<close> looks at the top-level tasks only. Its
  candidates are the tasks that carry a dependency list, have status pending or
  in-progress, and whose every dependency is the id of a task with status done (or
  completed); a dependency that matches no task is not satisfied. When no task is a
  candidate the result is \<^verbatim>\<open>null\<close>, not an error; otherwise the result is a candidate.
  When no candidate has the name of a member of \<^verbatim>\<open>Object.prototype\<close> for its priority,
  the result ranks before every other candidate: higher priority first (high 3, low 1,
  medium and every other priority, an absent one included, 2), then fewer dependencies,
  then lower id; a candidate that ties with the result in all three has the same id.
  The source's priority value of a task with such a priority is that rank. On the
  scenario of the specification the result is task 2.
\<close>

theorem findNextTask_best_listed_candidate:
  "(findNextTask ts = None \<longleftrightarrow> \<not> list_ex (listed_candidate ts) ts)
   \<and> (findNextTask ts = Some t \<longrightarrow> t \<in> set ts \<and> listed_candidate ts t)
   \<and> (findNextTask ts = Some t \<and> (\<forall>u\<in>set ts. listed_candidate ts u \<longrightarrow> plain_priority u)
      \<longrightarrow> (\<forall>u\<in>set ts. listed_candidate ts u \<longrightarrow>
              ranks_before t u \<and> (task_id u \<noteq> task_id t \<longrightarrow> \<not> ranks_before u t)))
   \<and> (plain_priority x \<longrightarrow> priorityValue x = Number (priority_rank x))
   \<and> (priority h = Some ''high'' \<and> priority l = Some ''low''
        \<and> priority m \<noteq> Some ''high'' \<and> priority m \<noteq> Some ''low''
      \<longrightarrow> priority_rank h = 3 \<and> priority_rank m = 2 \<and> priority_rank l = 1)
   \<and> findNextTask scenario_tasks = Some scenario_task2"
proof -
  have p: "priority_rank h = 3 \<and> priority_rank m = 2 \<and> priority_rank l = 1"
    if "priority h = Some ''high''" "priority l = Some ''low''"
      "priority m \<noteq> Some ''high''" "priority m \<noteq> Some ''low''"
    using that by (simp add: priority_rank_def)
  have a: "findNextTask ts = None \<longleftrightarrow> \<not> list_ex (listed_candidate ts) ts"
  proof -
    have "eligibleTasks ts = [] \<longleftrightarrow> \<not> (\<exists>x\<in>set ts. listed_candidate ts x)"
      using eligibleTasks_iff[of _ ts]
      by (metis empty_iff empty_set hd_in_set)
    then show ?thesis by (simp add: findNextTask_None list_ex_iff)
  qed
  have b: "t \<in> set ts \<and> listed_candidate ts t" if h: "findNextTask ts = Some t"
    using findNextTask_eligible[OF h] eligibleTasks_iff by blast
  have c: "ranks_before t u \<and> (task_id u \<noteq> task_id t \<longrightarrow> \<not> ranks_before u t)"
    if h: "findNextTask ts = Some t"
      and pl: "\<forall>u\<in>set ts. listed_candidate ts u \<longrightarrow> plain_priority u"
      and u: "u \<in> set ts" "listed_candidate ts u" for u
  proof -
    have "\<forall>x\<in>set (eligibleTasks ts). plain_priority x"
      using pl eligibleTasks_iff by blast
    then have "ranks_before t u"
      using findNextTask_ranks_before[OF h] eligibleTasks_iff u by blast
    then show ?thesis using ranks_before_strict[of t u] by auto
  qed
  have d: "priorityValue x = Number (priority_rank x)" if "plain_priority x"
    using that by (rule priorityValue_plain)
  from a b c d p findNextTask_scenario show ?thesis by blast
qed

theorem findNextTask_best_listed_candidate_witness:
  "findNextTask scenario_tasks = Some scenario_task2
   \<and> scenario_task3 \<in> set scenario_tasks
   \<and> listed_candidate scenario_tasks scenario_task2
   \<and> listed_candidate scenario_tasks scenario_task3
   \<and> ranks_before scenario_task2 scenario_task3
   \<and> \<not> ranks_before scenario_task3 scenario_task2
   \<and> priorityValue scenario_task2 = Number 3
   \<and> findNextTask [scenario_task1] = None
   \<and> \<not> list_ex (listed_candidate [scenario_task1]) [scenario_task1]"
proof -
  have r: "findNextTask scenario_tasks = Some scenario_task2"
    by (rule findNextTask_scenario)
  have m: "scenario_task3 \<in> set scenario_tasks"
    by (simp add: scenario_defs)
  have c: "listed_candidate scenario_tasks scenario_task3"
    by (simp add: listed_candidate_def spec_candidate_def resolves_to_done_def
        dependency_list_def is_done_def scenario_defs)
  have i: "task_id scenario_task3 \<noteq> task_id scenario_task2"
    by (simp add: scenario_defs)
  have pl: "\<forall>u\<in>set scenario_tasks. listed_candidate scenario_tasks u \<longrightarrow> plain_priority u"
    by (simp add: plain_priority_def object_prototype_members_def or_default_def scenario_defs)
  have p2: "plain_priority scenario_task2" "priority scenario_task2 = Some ''high''"
    by (simp_all add: plain_priority_def object_prototype_members_def or_default_def scenario_defs)
  have n: "findNextTask [scenario_task1] = None"
    by (simp add: findNextTask_defs scenario_defs)
  from r m c i pl p2 n
    findNextTask_best_listed_candidate[where ts=scenario_tasks and t=scenario_task2
      and x=scenario_task2 and h=scenario_task2 and l=scenario_task3 and m=scenario_task1]
    findNextTask_best_listed_candidate[where ts="[scenario_task1]" and t=scenario_task2]
  show ?thesis by (auto simp: scenario_defs)
qed

text \<open>
  Claim C3 as stated fails. A pending task without a \<^verbatim>\<open>dependencies\<close> property has no
  unsatisfied dependency, so it is a candidate in the words of the claim, yet on the
  list holding only that task \<^verbatim>\<open>findNextTask\<close> reports that nothing is eligible. A
  pending subtask that depends on nothing is such a node too, yet on the list holding
  only its finished parent the result is again that nothing is eligible: subtasks are
  never looked at.
\<close>

theorem findNextTask_skips_candidate_without_dependencies:
  "spec_candidate [unlisted_task] unlisted_task \<and> findNextTask [unlisted_task] = None
   \<and> pending_subtask \<in> set (subtask_list finished_parent)
   \<and> spec_candidate [finished_parent] pending_subtask
   \<and> findNextTask [finished_parent] = None"
  by (simp add: spec_candidate_def dependency_list_def subtask_list_def findNextTask_defs
      unlisted_task_def finished_parent_def pending_subtask_def)

text \<open>
  A priority that names a member of \<^verbatim>\<open>Object.prototype\<close> is no number: the comparator
  returns \<^verbatim>\<open>NaN\<close> against any other priority, the sort reads it as a tie, and the
  earlier task stays first, here the one of low priority.
\<close>

lemma findNextTask_member_priority: "findNextTask [low_task, member_task] = Some low_task"
  by (simp add: findNextTask_defs low_task_def member_task_def)

subsection \<open>Updating one object of a list\<close>

lemma task_id_set_status [simp]: "task_id (set_status s t) = task_id t"
  by (cases t) simp

lemma status_set_status [simp]: "status (set_status s t) = Some s"
  by (cases t) simp

lemma subtasks_set_status [simp]: "subtasks (set_status s t) = subtasks t"
  by (cases t) simp

lemma set_subtasks_sel [simp]:
  "task_id (set_subtasks x t) = task_id t"
  "title (set_subtasks x t) = title t"
  "description (set_subtasks x t) = description t"
  "details (set_subtasks x t) = details t"
  "testStrategy (set_subtasks x t) = testStrategy t"
  "status (set_subtasks x t) = status t"
  "priority (set_subtasks x t) = priority t"
  "dependencies (set_subtasks x t) = dependencies t"
  "parentTaskId (set_subtasks x t) = parentTaskId t"
  "subtasks (set_subtasks x t) = x"
  by (cases t; simp)+

lemma find_update_first:
  "(\<And>x. P x \<Longrightarrow> P (f x)) \<Longrightarrow> find P (update_first P f xs) = map_option f (find P xs)"
  by (induction xs) auto

lemma length_update_first [simp]: "length (update_first P f xs) = length xs"
  by (induction xs) auto

lemma nth_update_first:
  "find P xs = Some p \<Longrightarrow> i < length xs \<Longrightarrow>
   update_first P f xs ! i = xs ! i \<or> (xs ! i = p \<and> update_first P f xs ! i = f p)"
proof (induction xs arbitrary: i)
  case Nil
  then show ?case by simp
next
  case (Cons x xs)
  then show ?case by (cases i) (auto split: if_splits)
qed

lemma find_Some_set: "find P xs = Some x \<Longrightarrow> x \<in> set xs \<and> P x"
  by (induction xs) (auto split: if_splits)

lemma update_first_mem: "find P xs = Some x \<Longrightarrow> f x \<in> set (update_first P f xs)"
  by (induction xs) (auto split: if_splits)

lemma map_unchanged: "(\<forall>x\<in>set xs. P x) \<Longrightarrow> map (\<lambda>x. if \<not> P x then f x else x) xs = xs"
  by (induction xs) auto

subsection \<open>Status updates\<close>

lemma is_done_normalizes: "is_done t \<Longrightarrow> status_normalizes_to_done t"
  by (auto simp: is_done_def status_normalizes_to_done_def normalizes_to_done_def
      toLowerCase_def upper_lower_def)

lemma normalizes_exact: "s = ''done'' \<or> s = ''completed'' \<Longrightarrow> normalizes_to_done s"
  by (auto simp: normalizes_to_done_def toLowerCase_def upper_lower_def)

lemma mark_subtasks_sel [simp]:
  "task_id (mark_subtasks s t) = task_id t"
  "status (mark_subtasks s t) = status t"
  by (auto simp: mark_subtasks_def Let_def split: option.splits)

lemma subtasks_mark_subtasks:
  "normalizes_to_done s \<Longrightarrow>
   subtasks (mark_subtasks s t) =
     map_option (map (\<lambda>st. if \<not> is_done st then set_status s st else st)) (subtasks t)"
proof (cases "subtasks t")
  case None
  then show ?thesis by (simp add: mark_subtasks_def)
next
  case (Some sts)
  assume n: "normalizes_to_done s"
  show ?thesis
  proof (cases "filter (\<lambda>st. \<not> is_done st) sts = []")
    case True
    then have "\<forall>x\<in>set sts. is_done x" by (simp add: filter_empty_conv)
    then have "map (\<lambda>st. if \<not> is_done st then set_status s st else st) sts = sts"
      by (rule map_unchanged)
    then show ?thesis using Some True by (simp add: mark_subtasks_def Let_def)
  next
    case False
    then have "sts \<noteq> []" by auto
    then show ?thesis using Some False n by (simp add: mark_subtasks_def Let_def)
  qed
qed

lemma update_each_append:
  "update_each (pre @ rest) s ts acc =
     (case update_each pre s ts acc of
        Inl e \<Rightarrow> Inl e
      | Inr (ts1, acc1) \<Rightarrow> update_each rest s ts1 acc1)"
  by (induction pre arbitrary: ts acc) (auto split: sum.splits)

lemma update_each_ids: "update_each ids s ts acc = Inr (ts', out) \<Longrightarrow> out = acc @ ids"
proof (induction ids arbitrary: ts acc)
  case Nil
  then show ?case by simp
next
  case (Cons i ids)
  then show ?case by (fastforce split: sum.splits)
qed

text \<open>
  Claim C1, as amended. \<^verbatim>\<open>setTaskStatus\<close> splits its input at the commas, trims the
  pieces and updates them in order. The first address whose update fails ends the whole
  operation with that address's error, whatever follows it in the batch, and
  \<^verbatim>\<open>tasks.json\<close> is left as it was (the updates made before the failure are not
  written). When every update succeeds the result lists every address in order and the
  document holds the tasks after all the updates.
\<close>

theorem setTaskStatus_stops_at_first_failure:
  "(map trim (split_on CHR '','' input) = done_ids @ bad # rest
      \<and> update_each done_ids s ts [] = Inr (ts1, done_ids)
      \<and> updateSingleTaskStatus bad s ts1 = Inl e
    \<longrightarrow> setTaskStatus (Some (Document (Some ts) m)) input s
          = (Inl e, Some (Document (Some ts) m)))
   \<and> (update_each (map trim (split_on CHR '','' input)) s ts [] = Inr (ts', ids)
    \<longrightarrow> ids = map trim (split_on CHR '','' input)
       \<and> setTaskStatus (Some (Document (Some ts) m)) input s
          = (Inr ids, Some (Document (Some ts') m)))"
proof -
  have a: "setTaskStatus (Some (Document (Some ts) m)) input s
             = (Inl e, Some (Document (Some ts) m))"
    if "map trim (split_on CHR '','' input) = done_ids @ bad # rest"
      "update_each done_ids s ts [] = Inr (ts1, done_ids)"
      "updateSingleTaskStatus bad s ts1 = Inl e"
  proof -
    have "update_each (done_ids @ bad # rest) s ts [] = Inl e"
      using that(2,3) by (simp add: update_each_append)
    then show ?thesis using that(1) by (simp add: setTaskStatus_def)
  qed
  have b: "ids = map trim (split_on CHR '','' input)
       \<and> setTaskStatus (Some (Document (Some ts) m)) input s
          = (Inr ids, Some (Document (Some ts') m))"
    if "update_each (map trim (split_on CHR '','' input)) s ts [] = Inr (ts', ids)"
    using that update_each_ids[OF that] by (simp add: setTaskStatus_def)
  from a b show ?thesis by blast
qed

theorem setTaskStatus_stops_at_first_failure_witness:
  "setTaskStatus scenario ''2, 99,3'' ''done'' = (Inl TaskNotFound, scenario)
   \<and> setTaskStatus scenario ''2, 3'' ''done''
       = (Inr [''2'', ''3''], Some (Document (Some scenario_tasks_2_3_done) ''meta''))"
proof -
  have i1: "map trim (split_on CHR '','' ''2, 99,3'') = [''2''] @ ''99'' # [''3'']"
    by code_simp
  have p1: "update_each [''2''] ''done'' scenario_tasks [] = Inr (scenario_tasks_2_done, [''2''])"
    by code_simp
  have b1: "updateSingleTaskStatus ''99'' ''done'' scenario_tasks_2_done = Inl TaskNotFound"
    by code_simp
  have i2: "map trim (split_on CHR '','' ''2, 3'') = [''2'', ''3'']"
    by code_simp
  have p2: "update_each [''2'', ''3''] ''done'' scenario_tasks []
              = Inr (scenario_tasks_2_3_done, [''2'', ''3''])"
    by code_simp
  from i1 p1 b1
    setTaskStatus_stops_at_first_failure[of "''2, 99,3''" "[''2'']" "''99''" "[''3'']" "''done''"
      scenario_tasks scenario_tasks_2_done TaskNotFound "''meta''"]
  have w1: "setTaskStatus scenario ''2, 99,3'' ''done'' = (Inl TaskNotFound, scenario)"
    by (simp add: scenario_def)
  from i2 p2
    setTaskStatus_stops_at_first_failure[of "''2, 3''" _ _ _ "''done''" scenario_tasks _ _ "''meta''"
      scenario_tasks_2_3_done "[''2'', ''3'']"]
  have w2: "setTaskStatus scenario ''2, 3'' ''done''
       = (Inr [''2'', ''3''], Some (Document (Some scenario_tasks_2_3_done) ''meta''))"
    by (simp add: scenario_def)
  from w1 w2 show ?thesis by simp
qed

text \<open>
  Claim C1 as stated fails: in the batch \<^verbatim>\<open>99,3\<close> the address 99 matches no task, and
  the update of task 3, which succeeds on its own, is never made: the operation ends
  with the error of address 99 and the document is unchanged.
\<close>

theorem setTaskStatus_bad_address_blocks_batch:
  "fst (setTaskStatus scenario ''3'' ''done'') = Inr [''3'']
   \<and> setTaskStatus scenario ''99,3'' ''done'' = (Inl TaskNotFound, scenario)"
  by code_simp

text \<open>
  Claim C2. Setting the status of a task (an address without a dot) to a value that
  normalizes to done succeeds only on an existing task, and afterwards that task has
  the new status and its subtask list is the old one in which every subtask that was
  not done has received the new status, the others being untouched. Every subtask then
  has a status that normalizes to done; when the new status is exactly \<^verbatim>\<open>done\<close> or
  \<^verbatim>\<open>completed\<close>, every subtask is done in the sense of the source's own comparison.
\<close>

theorem task_done_cascades_to_subtasks:
  "CHR ''.'' \<notin> set a \<and> normalizes_to_done s \<and> updateSingleTaskStatus a s ts = Inr (ts', adv)
   \<longrightarrow> (\<exists>t t'. find (\<lambda>t. Some (task_id t) = parseInt a) ts = Some t
          \<and> find (\<lambda>t. Some (task_id t) = parseInt a) ts' = Some t'
          \<and> status t' = Some s
          \<and> subtasks t' =
              map_option (map (\<lambda>st. if \<not> is_done st then set_status s st else st)) (subtasks t)
          \<and> list_all status_normalizes_to_done (subtask_list t')
          \<and> (s = ''done'' \<or> s = ''completed'' \<longrightarrow> list_all is_done (subtask_list t')))"
proof (intro impI, elim conjE)
  assume dot: "CHR ''.'' \<notin> set a" and n: "normalizes_to_done s"
    and u: "updateSingleTaskStatus a s ts = Inr (ts', adv)"
  let ?P = "\<lambda>t. Some (task_id t) = parseInt a"
  let ?f = "\<lambda>t. mark_subtasks s (set_status s t)"
  let ?g = "\<lambda>st. if \<not> is_done st then set_status s st else st"
  from u dot obtain t where t: "find ?P ts = Some t" and ts': "ts' = update_first ?P ?f ts"
    by (auto simp: updateSingleTaskStatus_def Let_def split: option.splits)
  have f': "find ?P ts' = Some (?f t)"
    unfolding ts' using find_update_first[of ?P ?f ts] t by simp
  have st: "status (?f t) = Some s" by simp
  have sb: "subtasks (?f t) = map_option (map ?g) (subtasks t)"
    using subtasks_mark_subtasks[OF n, of "set_status s t"] by simp
  have nz: "status_normalizes_to_done (?g x)" for x
    using n is_done_normalizes[of x] by (auto simp: status_normalizes_to_done_def)
  have all: "list_all status_normalizes_to_done (subtask_list (?f t))"
  proof (cases "subtasks t")
    case None
    then show ?thesis by (simp add: subtask_list_def sb)
  next
    case (Some sts)
    have "list_all status_normalizes_to_done (map ?g sts)"
      unfolding list_all_iff using nz by (metis (no_types, lifting) imageE list.set_map)
    then show ?thesis by (simp add: subtask_list_def sb Some)
  qed
  have ex: "list_all is_done (subtask_list (?f t))" if "s = ''done'' \<or> s = ''completed''"
  proof -
    have d: "is_done (?g x)" for x using that by (auto simp: is_done_def)
    show ?thesis
    proof (cases "subtasks t")
      case None
      then show ?thesis by (simp add: subtask_list_def sb)
    next
      case (Some sts)
      have "list_all is_done (map ?g sts)"
        unfolding list_all_iff using d by (metis (no_types, lifting) imageE list.set_map)
      then show ?thesis by (simp add: subtask_list_def sb Some)
    qed
  qed
  from t f' st sb all ex show "\<exists>t t'. find ?P ts = Some t \<and> find ?P ts' = Some t'
          \<and> status t' = Some s
          \<and> subtasks t' = map_option (map ?g) (subtasks t)
          \<and> list_all status_normalizes_to_done (subtask_list t')
          \<and> (s = ''done'' \<or> s = ''completed'' \<longrightarrow> list_all is_done (subtask_list t'))"
    by blast
qed

theorem task_done_cascades_to_subtasks_witness:
  "updateSingleTaskStatus ''2'' ''done'' project_tasks
     = Inr ([scenario_task1, project_task2_done, project_task5], False)
   \<and> status project_task2_done = Some ''done''
   \<and> subtask_list project_task2 = [subtask_2_1, subtask_2_2]
   \<and> status subtask_2_1 = Some ''pending''
   \<and> list_all is_done (subtask_list project_task2_done)"
proof -
  have d: "CHR ''.'' \<notin> set ''2''" and n: "normalizes_to_done ''done''"
    by code_simp+
  have u: "updateSingleTaskStatus ''2'' ''done'' project_tasks
             = Inr ([scenario_task1, project_task2_done, project_task5], False)"
    by code_simp
  have f: "find (\<lambda>t. Some (task_id t) = parseInt ''2'')
             [scenario_task1, project_task2_done, project_task5] = Some project_task2_done"
    by code_simp
  have o: "subtask_list project_task2 = [subtask_2_1, subtask_2_2]"
    "status subtask_2_1 = Some ''pending''"
    by code_simp+
  from d n u f
    task_done_cascades_to_subtasks[of "''2''" "''done''" project_tasks
      "[scenario_task1, project_task2_done, project_task5]" False]
  have "status project_task2_done = Some ''done''
        \<and> list_all is_done (subtask_list project_task2_done)"
    by auto
  with u o show ?thesis by simp
qed

text \<open>
  Claim C6. Setting the status of a subtask (an address with a dot) changes, in the
  whole task list, only the parent task, and in the parent only its subtask list, where
  the addressed subtask receives the new status: the parent's id, title, description,
  details, test strategy, status, priority, dependencies and parent id are what they
  were. The advisory lines are printed exactly when, after the update, every subtask
  of the parent is done and the parent itself is not.
\<close>

theorem subtask_update_leaves_parent:
  "CHR ''.'' \<in> set a \<and> updateSingleTaskStatus a s ts = Inr (ts', adv)
   \<longrightarrow> (\<exists>p p' sts.
          find (\<lambda>t. Some (task_id t) = parse_segment (split_on CHR ''.'' a) 0) ts = Some p
        \<and> find (\<lambda>t. Some (task_id t) = parse_segment (split_on CHR ''.'' a) 0) ts' = Some p'
        \<and> subtasks p = Some sts
        \<and> subtasks p' = Some (update_first
             (\<lambda>st. Some (task_id st) = parse_segment (split_on CHR ''.'' a) 1) (set_status s) sts)
        \<and> task_id p' = task_id p \<and> title p' = title p \<and> description p' = description p
        \<and> details p' = details p \<and> testStrategy p' = testStrategy p
        \<and> status p' = status p \<and> priority p' = priority p
        \<and> dependencies p' = dependencies p \<and> parentTaskId p' = parentTaskId p
        \<and> length ts' = length ts
        \<and> (\<forall>i<length ts. ts' ! i = ts ! i \<or> (ts ! i = p \<and> ts' ! i = p'))
        \<and> (adv \<longleftrightarrow> list_all is_done (subtask_list p') \<and> \<not> is_done p))"
proof (intro impI, elim conjE)
  assume dot: "CHR ''.'' \<in> set a" and u: "updateSingleTaskStatus a s ts = Inr (ts', adv)"
  let ?P = "\<lambda>t. Some (task_id t) = parse_segment (split_on CHR ''.'' a) 0"
  let ?Q = "\<lambda>st. Some (task_id st) = parse_segment (split_on CHR ''.'' a) 1"
  from u dot obtain p sts sub where p: "find ?P ts = Some p" and sts: "subtasks p = Some sts"
    and sub: "find ?Q sts = Some sub"
    and ts': "ts' = update_first ?P (set_subtasks (Some (update_first ?Q (set_status s) sts))) ts"
    and adv: "adv = (normalizes_to_done s \<and> list_all is_done (update_first ?Q (set_status s) sts)
                     \<and> \<not> is_done p)"
    by (auto simp: updateSingleTaskStatus_def Let_def split: option.splits)
  let ?sts' = "update_first ?Q (set_status s) sts"
  let ?p' = "set_subtasks (Some ?sts') p"
  have f': "find ?P ts' = Some ?p'"
    unfolding ts' using find_update_first[of ?P "set_subtasks (Some ?sts')" ts] p by simp
  have nth: "\<forall>i<length ts. ts' ! i = ts ! i \<or> (ts ! i = p \<and> ts' ! i = ?p')"
    unfolding ts' using nth_update_first[OF p] by blast
  have "normalizes_to_done s" if "list_all is_done ?sts'"
  proof -
    have "set_status s sub \<in> set ?sts'" using update_first_mem[OF sub] .
    then have "is_done (set_status s sub)" using that by (simp add: list_all_iff)
    then have "s = ''done'' \<or> s = ''completed''" by (simp add: is_done_def)
    then show ?thesis by (rule normalizes_exact)
  qed
  then have adv': "adv \<longleftrightarrow> list_all is_done (subtask_list ?p') \<and> \<not> is_done p"
    unfolding adv subtask_list_def by auto
  show "\<exists>p p' sts. find ?P ts = Some p \<and> find ?P ts' = Some p' \<and> subtasks p = Some sts
        \<and> subtasks p' = Some (update_first ?Q (set_status s) sts)
        \<and> task_id p' = task_id p \<and> title p' = title p \<and> description p' = description p
        \<and> details p' = details p \<and> testStrategy p' = testStrategy p
        \<and> status p' = status p \<and> priority p' = priority p
        \<and> dependencies p' = dependencies p \<and> parentTaskId p' = parentTaskId p
        \<and> length ts' = length ts
        \<and> (\<forall>i<length ts. ts' ! i = ts ! i \<or> (ts ! i = p \<and> ts' ! i = p'))
        \<and> (adv \<longleftrightarrow> list_all is_done (subtask_list p') \<and> \<not> is_done p)"
    apply (rule exI[of _ p], rule exI[of _ ?p'], rule exI[of _ sts])
    using p f' sts nth adv' ts' by simp
qed

theorem subtask_update_leaves_parent_witness:
  "updateSingleTaskStatus ''2.1'' ''done'' project_tasks
     = Inr ([scenario_task1, project_task2_sub_done, project_task5], True)
   \<and> status project_task2 = Some ''pending''
   \<and> status project_task2_sub_done = Some ''pending''
   \<and> list_all is_done (subtask_list project_task2_sub_done)"
proof -
  have d: "CHR ''.'' \<in> set ''2.1''"
    by code_simp
  have u: "updateSingleTaskStatus ''2.1'' ''done'' project_tasks
             = Inr ([scenario_task1, project_task2_sub_done, project_task5], True)"
    by code_simp
  have f: "find (\<lambda>t. Some (task_id t) = parse_segment (split_on CHR ''.'' ''2.1'') 0)
             project_tasks = Some project_task2"
    "find (\<lambda>t. Some (task_id t) = parse_segment (split_on CHR ''.'' ''2.1'') 0)
             [scenario_task1, project_task2_sub_done, project_task5] = Some project_task2_sub_done"
    by code_simp+
  have s: "status project_task2 = Some ''pending''"
    by code_simp
  from d u f
    subtask_update_leaves_parent[of "''2.1''" "''done''" project_tasks
      "[scenario_task1, project_task2_sub_done, project_task5]" True]
  have "status project_task2_sub_done = status project_task2
        \<and> list_all is_done (subtask_list project_task2_sub_done)"
    by auto
  with u s show ?thesis by simp
qed

subsection \<open>Highest ids\<close>

lemma max_list_Max: "max_list m xs = Max (insert m (set xs))"
proof (induction xs arbitrary: m)
  case Nil
  then show ?case by simp
next
  case (Cons x xs)
  have "Max (insert (max m x) (set xs)) = Max (insert m (insert x (set xs)))"
    by (cases "set xs = {}") (simp_all add: max.assoc)
  then show ?case using Cons by simp
qed

lemma math_max_Max: "xs \<noteq> [] \<Longrightarrow> math_max xs = Some (Max (set xs))"
  by (cases xs) (auto simp: max_list_Max)

lemma highestSubtaskId_Max:
  "highestSubtaskId sts = (if sts = [] then 0 else Max (set (map task_id sts)))"
  using math_max_Max[of "map task_id sts"] by (auto simp: highestSubtaskId_def)

lemma set_subtasks_twice [simp]: "set_subtasks y (set_subtasks x t) = set_subtasks y t"
  by (cases t) simp

lemma update_first_twice:
  "(\<And>x. P x \<Longrightarrow> P (f x)) \<Longrightarrow>
   update_first P g (update_first P f xs) = update_first P (\<lambda>x. g (f x)) xs"
  by (induction xs) auto

subsection \<open>isTaskDependentOn and addSubtask\<close>

lemma find_update_first_other:
  "(\<And>u. Q (f u) = Q u) \<Longrightarrow> find Q xs = Some x \<Longrightarrow>
   find Q (update_first P f xs) = Some x \<or> find Q (update_first P f xs) = Some (f x)"
  by (induction xs) (auto split: if_splits)


lemma has_parentTaskId_set_subtasks [simp]:
  "has_parentTaskId (set_subtasks x t) = has_parentTaskId t"
  by (simp add: has_parentTaskId_def)






lemma subtask_list_set_subtasks [simp]:
  "subtask_list (set_subtasks (Some (subtask_list t)) t) = subtask_list t"
  by (simp add: subtask_list_def)



lemma cycle_overflows:
  "isTaskDependentOn depth cyclic_tasks cyclic_task1 3 = None
   \<and> isTaskDependentOn depth cyclic_tasks cyclic_task2 3 = None"
  by (induction depth) (simp_all add: cyclic_tasks_def cyclic_task1_def cyclic_task2_def)

text \<open>The conversion branch of addSubtask once both ids have been resolved.\<close>

lemma addSubtask_convert_resolved:
  assumes p: "find (\<lambda>t. Some (task_id t) = parseInt parentId) ts = Some p"
    and x: "find (\<lambda>t. Some (task_id t) = parseInt existingId) ts = Some x"
  shows "\<exists>good.
    addSubtask depth (Some (Document (Some ts) m)) parentId (Some existingId) payload
    = (if has_parentTaskId x then (Inl AlreadySubtask, Some (Document (Some ts) m))
       else if task_id x = task_id p then (Inl SelfReference, Some (Document (Some ts) m))
       else (case isTaskDependentOn depth
                    (update_first (\<lambda>t. Some (task_id t) = parseInt parentId)
                       (set_subtasks (Some (subtask_list p))) ts)
                    (set_subtasks (Some (subtask_list p)) p) (task_id x) of
               None \<Rightarrow> (Inl StackOverflow, Some (Document (Some ts) m))
             | Some True \<Rightarrow> (Inl CircularConversion, Some (Document (Some ts) m))
             | Some False \<Rightarrow> good))"
proof -
  let ?P = "\<lambda>t. Some (task_id t) = parseInt parentId"
  let ?Q = "\<lambda>t. Some (task_id t) = parseInt existingId"
  let ?f = "set_subtasks (Some (subtask_list p))"
  let ?ts1 = "update_first ?P ?f ts"
  have ip: "parseInt parentId = Some (task_id p)" and ix: "parseInt existingId = Some (task_id x)"
    using find_Some_set[OF p] find_Some_set[OF x] by simp_all
  have "find ?Q ?ts1 = Some x \<or> find ?Q ?ts1 = Some (?f x)"
    using find_update_first_other[of ?Q ?f ts x ?P] x by simp
  then obtain x1 where x1: "find ?Q ?ts1 = Some x1" and i1: "task_id x1 = task_id x"
    and h1: "has_parentTaskId x1 = has_parentTaskId x"
    by auto
  show ?thesis
    using p x1 i1 h1 ip ix
    by (auto simp: addSubtask_def Let_def subtask_list_def split: option.splits bool.splits)
qed

lemma depends_on_cyclic: "depends_on cyclic_tasks 3 cyclic_task1"
proof -
  let ?t4 = "Task 4 (Some ''four'') None None None (Some ''pending'') None (Some [3]) None None"
  have d4: "dependencies ?t4 = Some [3]" and m4: "(3::int) \<in> set [3]"
    by simp_all
  have d1: "dependencies cyclic_task1 = Some [2, 4]" and m1: "(4::int) \<in> set [2, 4]"
    by (simp_all add: cyclic_task1_def)
  have f4: "find (\<lambda>u. task_id u = 4) cyclic_tasks = Some ?t4"
    by (simp add: cyclic_tasks_def cyclic_task1_def cyclic_task2_def)
  from direct_dependency[OF d4 m4] have "depends_on cyclic_tasks 3 ?t4" .
  from through_dependency[OF d1 m1 f4 this] show ?thesis .
qed

text \<open>
  The check of the source keeps no record of the tasks it has visited. On the cyclic
  document it never returns, however deep the stack: task 3 is reachable from task 1
  through task 4, but the recursion follows task 2 first and then task 1 again. This is
  why the theorem on conversions below asks that no cycle be reachable from the parent.
\<close>

lemma addSubtask_cycle_overflows:
  "addSubtask depth cyclic ''1'' (Some ''3'') None = (Inl StackOverflow, cyclic)"
proof -
  let ?t3 = "Task 3 (Some ''three'') None None None (Some ''pending'') None (Some []) None None"
  have p: "find (\<lambda>t. Some (task_id t) = parseInt ''1'') cyclic_tasks = Some cyclic_task1"
    and x: "find (\<lambda>t. Some (task_id t) = parseInt ''3'') cyclic_tasks = Some ?t3"
    by code_simp+
  have u: "update_first (\<lambda>t. Some (task_id t) = parseInt ''1'')
             (set_subtasks (Some (subtask_list cyclic_task1))) cyclic_tasks = cyclic_tasks"
    and s: "set_subtasks (Some (subtask_list cyclic_task1)) cyclic_task1 = cyclic_task1"
    by code_simp+
  have h: "\<not> has_parentTaskId ?t3" and i: "task_id ?t3 \<noteq> task_id cyclic_task1"
    and t: "task_id ?t3 = 3"
    by code_simp+
  have n: "isTaskDependentOn depth cyclic_tasks cyclic_task1 (task_id ?t3) = None"
    using cycle_overflows[of depth] by simp
  from addSubtask_convert_resolved[OF p x, of depth "''meta''" None] h i n
  show ?thesis
    unfolding u s by (auto simp: cyclic_def)
qed

text \<open>
  Claim C7. \<^verbatim>\<open>addSubtask\<close> fails with the parent-not-found error, leaving the document
  as it was, whenever the parent id matches no task, whatever the other arguments. On an
  existing parent and a payload it succeeds: the new subtask is appended to the parent's
  subtasks, its id is one more than the highest id among them (1 when there are none),
  its status is the payload's when the payload has a non-empty one and pending
  otherwise, and its parent id is the parent's. On task 2 of the scenario, which has no
  subtasks, the new subtask has id 1: its address is 2.1.
\<close>

theorem addSubtask_new_subtask:
  "(find (\<lambda>t. Some (task_id t) = parseInt parentId) ts = None
      \<longrightarrow> addSubtask depth (Some (Document (Some ts) m)) parentId existing payload
            = (Inl ParentTaskNotFound, Some (Document (Some ts) m)))
   \<and> (find (\<lambda>t. Some (task_id t) = parseInt parentId) ts = Some p
      \<longrightarrow> (\<exists>new.
            addSubtask depth (Some (Document (Some ts) m)) parentId None (Some d)
              = (Inr new,
                 Some (Document (Some (update_first (\<lambda>t. Some (task_id t) = parseInt parentId)
                          (set_subtasks (Some (subtask_list p @ [new]))) ts)) m))
          \<and> task_id new
              = (if subtask_list p = [] then 0 else Max (set (map task_id (subtask_list p)))) + 1
          \<and> status new = Some (or_default (new_status d) ''pending'')
          \<and> (new_status d = None \<or> new_status d = Some [] \<longrightarrow> status new = Some ''pending'')
          \<and> (\<forall>s. new_status d = Some s \<and> s \<noteq> [] \<longrightarrow> status new = Some s)
          \<and> title new = new_title d
          \<and> parentTaskId new = Some (task_id p)))
   \<and> fst (addSubtask depth scenario ''2'' None (Some (NewSubtaskData (Some ''x'') None None None None)))
       = Inr (Task 1 (Some ''x'') (Some []) (Some []) None (Some ''pending'') None (Some []) None (Some 2))
   \<and> subtasks scenario_task2 = None
   \<and> subtask_address 2 1 = ''2.1''"
proof -
  let ?P = "\<lambda>t. Some (task_id t) = parseInt parentId"
  have a: "addSubtask depth (Some (Document (Some ts) m)) parentId existing payload
            = (Inl ParentTaskNotFound, Some (Document (Some ts) m))"
    if "find ?P ts = None"
    using that by (simp add: addSubtask_def)
  have b: "\<exists>new.
            addSubtask depth (Some (Document (Some ts) m)) parentId None (Some d)
              = (Inr new,
                 Some (Document (Some (update_first ?P
                          (set_subtasks (Some (subtask_list p @ [new]))) ts)) m))
          \<and> task_id new
              = (if subtask_list p = [] then 0 else Max (set (map task_id (subtask_list p)))) + 1
          \<and> status new = Some (or_default (new_status d) ''pending'')
          \<and> (new_status d = None \<or> new_status d = Some [] \<longrightarrow> status new = Some ''pending'')
          \<and> (\<forall>s. new_status d = Some s \<and> s \<noteq> [] \<longrightarrow> status new = Some s)
          \<and> title new = new_title d
          \<and> parentTaskId new = Some (task_id p)"
    if p: "find ?P ts = Some p"
  proof -
    let ?new = "Task (highestSubtaskId (subtask_list p) + 1) (new_title d)
                  (Some (or_default (new_description d) ''''))
                  (Some (or_default (new_details d) '''')) None
                  (Some (or_default (new_status d) ''pending'')) None
                  (Some (case new_dependencies d of None \<Rightarrow> [] | Some deps \<Rightarrow> deps))
                  None (Some (task_id p))"
    have tw: "update_first ?P (set_subtasks (Some (subtask_list p @ [?new])))
                (update_first ?P (set_subtasks (Some (subtask_list p))) ts)
              = update_first ?P (set_subtasks (Some (subtask_list p @ [?new]))) ts"
      using update_first_twice[of ?P "set_subtasks (Some (subtask_list p))"
          "set_subtasks (Some (subtask_list p @ [?new]))" ts] by simp
    have r: "addSubtask depth (Some (Document (Some ts) m)) parentId None (Some d)
              = (Inr ?new, Some (Document (Some (update_first ?P
                          (set_subtasks (Some (subtask_list p @ [?new]))) ts)) m))"
      using p tw by (simp add: addSubtask_def Let_def subtask_list_def)
    show ?thesis
      apply (rule exI[of _ ?new])
      using r by (auto simp: highestSubtaskId_Max or_default_def)
  qed
  have c: "fst (addSubtask depth scenario ''2'' None (Some (NewSubtaskData (Some ''x'') None None None None)))
       = Inr (Task 1 (Some ''x'') (Some []) (Some []) None (Some ''pending'') None (Some []) None (Some 2))"
    by (simp add: addSubtask_def scenario_def scenario_tasks_def scenario_task1_def scenario_task2_def scenario_task3_def
        parseInt_def is_ws_def is_digit_def digit_table_def digits_value_def Let_def highestSubtaskId_def or_default_def)
  have e: "subtasks scenario_task2 = None" "subtask_address 2 1 = ''2.1''"
    by (simp_all add: scenario_task2_def subtask_address_def string_of_int_def)
  from a b c e show ?thesis by blast
qed

theorem addSubtask_new_subtask_witness:
  "addSubtask 0 scenario ''9'' None None = (Inl ParentTaskNotFound, scenario)
   \<and> fst (addSubtask 0 project ''2'' None
           (Some (NewSubtaskData (Some ''x'') None None (Some ''in-progress'') None)))
       = Inr (Task 3 (Some ''x'') (Some []) (Some []) None (Some ''in-progress'') None (Some [])
                None (Some 2))"
proof -
  have n: "find (\<lambda>t. Some (task_id t) = parseInt ''9'') scenario_tasks = None"
    by code_simp
  have p: "find (\<lambda>t. Some (task_id t) = parseInt ''2'') project_tasks = Some project_task2"
    by code_simp
  have m: "(if subtask_list project_task2 = [] then 0
            else Max (set (map task_id (subtask_list project_task2)))) + 1 = 3"
    by (simp add: subtask_list_def project_task2_def subtask_2_1_def subtask_2_2_def)
  have e: "fst (addSubtask 0 project ''2'' None
           (Some (NewSubtaskData (Some ''x'') None None (Some ''in-progress'') None)))
       = Inr (Task 3 (Some ''x'') (Some []) (Some []) None (Some ''in-progress'') None (Some [])
                None (Some 2))"
    by code_simp
  from n addSubtask_new_subtask[where parentId="''9''" and ts=scenario_tasks and depth=0
      and m="''meta''" and existing=None and payload=None]
  have w1: "addSubtask 0 scenario ''9'' None None = (Inl ParentTaskNotFound, scenario)"
    by (simp add: scenario_def)
  from p m addSubtask_new_subtask[where parentId="''2''" and ts=project_tasks and p=project_task2
      and depth=0 and m="''meta''"
      and d="NewSubtaskData (Some ''x'') None None (Some ''in-progress'') None"]
  obtain new where
    "fst (addSubtask 0 project ''2'' None
           (Some (NewSubtaskData (Some ''x'') None None (Some ''in-progress'') None))) = Inr new"
    "task_id new = 3" "status new = Some ''in-progress''"
    by (auto simp: project_def)
  with e w1 show ?thesis by simp
qed





subsection \<open>removeSubtask and addTask\<close>

lemma map_task_id_update_first:
  "(\<And>x. task_id (f x) = task_id x) \<Longrightarrow> map task_id (update_first P f xs) = map task_id xs"
  by (induction xs) auto

lemma find_Some_ne: "find P xs = Some x \<Longrightarrow> xs \<noteq> []"
  by (cases xs) auto

text \<open>
  Claim C4, as amended. \<^verbatim>\<open>removeSubtask\<close> with \<^verbatim>\<open>convertToTask\<close> set, on an address
  that resolves to a subtask, removes the subtask from its parent's list (the
  \<^verbatim>\<open>subtasks\<close> property itself when the list becomes empty) and appends a new top-level
  task whose id is one more than the highest task id. The new task takes the subtask's
  title, description, details, status and dependencies (with the defaults \<^verbatim>\<open>''\<close>,
  \<^verbatim>\<open>''\<close>, \<^verbatim>\<open>pending\<close>, \<^verbatim>\<open>[]\<close>), the former parent's id is appended to its
  dependencies unless it is among them, and its priority is the former parent's
  (medium when the parent has none), whatever the subtask's own priority was; test
  strategy, subtasks and parent id are not carried over. On the project, whose highest
  task id is 5, removing 2.1 creates task 6, whose dependencies contain 2.
\<close>

theorem removeSubtask_converts_to_task:
  "(CHR ''.'' \<in> set address
    \<and> find (\<lambda>t. Some (task_id t) = parse_segment (split_on CHR ''.'' address) 0) ts = Some p
    \<and> subtasks p = Some sts
    \<and> find (\<lambda>s. Some (task_id s) = parse_segment (split_on CHR ''.'' address) 1) sts = Some sub
    \<longrightarrow> (\<exists>converted remaining.
           remaining = remove_first
                         (\<lambda>s. Some (task_id s) = parse_segment (split_on CHR ''.'' address) 1) sts
         \<and> removeSubtask (Some (Document (Some ts) m)) address True
             = (Inr (Some converted),
                Some (Document
                  (Some (update_first
                           (\<lambda>t. Some (task_id t) = parse_segment (split_on CHR ''.'' address) 0)
                           (set_subtasks (if remaining = [] then None else Some remaining)) ts
                         @ [converted])) m))
         \<and> task_id converted = Max (set (map task_id ts)) + 1
         \<and> title converted = title sub
         \<and> description converted = Some (or_default (description sub) '''')
         \<and> details converted = Some (or_default (details sub) '''')
         \<and> status converted = Some (or_default (status sub) ''pending'')
         \<and> priority converted = Some (or_default (priority p) ''medium'')
         \<and> dependencies converted
             = Some (if task_id p \<in> set (dependency_list sub) then dependency_list sub
                     else dependency_list sub @ [task_id p])
         \<and> task_id p \<in> set (dependency_list converted)
         \<and> testStrategy converted = None \<and> subtasks converted = None
         \<and> parentTaskId converted = None))
   \<and> Max (set (map task_id project_tasks)) = 5
   \<and> removeSubtask project ''2.1'' True
       = (Inr (Some converted_2_1),
          Some (Document
            (Some [scenario_task1, set_subtasks (Some [subtask_2_2]) project_task2, project_task5,
                   converted_2_1]) ''meta''))"
proof -
  let ?P = "\<lambda>t. Some (task_id t) = parse_segment (split_on CHR ''.'' address) 0"
  let ?Q = "\<lambda>s. Some (task_id s) = parse_segment (split_on CHR ''.'' address) 1"
  have a: "\<exists>converted remaining.
           remaining = remove_first ?Q sts
         \<and> removeSubtask (Some (Document (Some ts) m)) address True
             = (Inr (Some converted),
                Some (Document
                  (Some (update_first ?P
                           (set_subtasks (if remaining = [] then None else Some remaining)) ts
                         @ [converted])) m))
         \<and> task_id converted = Max (set (map task_id ts)) + 1
         \<and> title converted = title sub
         \<and> description converted = Some (or_default (description sub) '''')
         \<and> details converted = Some (or_default (details sub) '''')
         \<and> status converted = Some (or_default (status sub) ''pending'')
         \<and> priority converted = Some (or_default (priority p) ''medium'')
         \<and> dependencies converted
             = Some (if task_id p \<in> set (dependency_list sub) then dependency_list sub
                     else dependency_list sub @ [task_id p])
         \<and> task_id p \<in> set (dependency_list converted)
         \<and> testStrategy converted = None \<and> subtasks converted = None
         \<and> parentTaskId converted = None"
    if dot: "CHR ''.'' \<in> set address" and p: "find ?P ts = Some p"
      and sts: "subtasks p = Some sts" and sub: "find ?Q sts = Some sub"
  proof -
    let ?rem = "remove_first ?Q sts"
    let ?ts1 = "update_first ?P (set_subtasks (if ?rem = [] then None else Some ?rem)) ts"
    let ?c = "convertedTask (Max (set (map task_id ts)) + 1) (task_id p) p sub"
    have ne: "ts \<noteq> []" "sts \<noteq> []"
      using find_Some_ne[OF p] find_Some_ne[OF sub] by simp_all
    have "map task_id (update_first ?P (set_subtasks z) ts) = map task_id ts" for z
      by (rule map_task_id_update_first) simp
    then have mx: "math_max (map task_id (update_first ?P (set_subtasks z) ts))
                   = Some (Max (set (map task_id ts)))" for z
      using math_max_Max[of "map task_id ts"] ne by simp
    have r: "removeSubtask (Some (Document (Some ts) m)) address True
             = (Inr (Some ?c), Some (Document (Some (?ts1 @ [?c])) m))"
      using dot p sts sub ne mx by (simp add: removeSubtask_def Let_def)
    show ?thesis
      apply (rule exI[of _ ?c], rule exI[of _ ?rem])
      using r by (simp add: convertedTask_def dependency_list_def Let_def)
  qed
  have b: "Max (set (map task_id project_tasks)) = 5"
    by (simp add: project_tasks_def scenario_task1_def project_task2_def project_task5_def)
  have c: "removeSubtask project ''2.1'' True
       = (Inr (Some converted_2_1),
          Some (Document
            (Some [scenario_task1, set_subtasks (Some [subtask_2_2]) project_task2, project_task5,
                   converted_2_1]) ''meta''))"
    by code_simp
  from a b c show ?thesis by blast
qed

theorem removeSubtask_converts_to_task_witness:
  "removeSubtask project ''2.1'' True
     = (Inr (Some converted_2_1),
        Some (Document
          (Some [scenario_task1, set_subtasks (Some [subtask_2_2]) project_task2, project_task5,
                 converted_2_1]) ''meta''))
   \<and> task_id converted_2_1 = 6
   \<and> priority converted_2_1 = Some ''low''
   \<and> 2 \<in> set (dependency_list converted_2_1)"
proof -
  have d: "CHR ''.'' \<in> set ''2.1''"
    and p: "find (\<lambda>t. Some (task_id t) = parse_segment (split_on CHR ''.'' ''2.1'') 0) project_tasks
            = Some project_task2"
    and s: "subtasks project_task2 = Some [subtask_2_1, subtask_2_2]"
    and f: "find (\<lambda>s. Some (task_id s) = parse_segment (split_on CHR ''.'' ''2.1'') 1)
              [subtask_2_1, subtask_2_2] = Some subtask_2_1"
    by code_simp+
  have o: "or_default (priority project_task2) ''medium'' = ''low''" "task_id project_task2 = 2"
    by code_simp+
  from d p s f
    removeSubtask_converts_to_task[where address="''2.1''" and ts=project_tasks
      and p=project_task2 and sts="[subtask_2_1, subtask_2_2]" and sub=subtask_2_1
      and m="''meta''"]
  obtain converted where
    c: "removeSubtask (Some (Document (Some project_tasks) ''meta'')) ''2.1'' True
         = (Inr (Some converted), Some (Document
          (Some [scenario_task1, set_subtasks (Some [subtask_2_2]) project_task2, project_task5,
                 converted_2_1]) ''meta''))"
      "task_id converted = 5 + 1"
      "priority converted = Some (or_default (priority project_task2) ''medium'')"
      "task_id project_task2 \<in> set (dependency_list converted)"
      "removeSubtask project ''2.1'' True
       = (Inr (Some converted_2_1),
          Some (Document
            (Some [scenario_task1, set_subtasks (Some [subtask_2_2]) project_task2, project_task5,
                   converted_2_1]) ''meta''))"
    by (auto simp: project_def)
  from c(1,5) have "converted = converted_2_1" by (simp add: project_def)
  with c o show ?thesis by simp
qed

text \<open>
  Claim C4 as stated fails: subtask 2.1 of the project has priority high and a test
  strategy, its parent has priority low; the task made from it has priority low and no
  test strategy.
\<close>

theorem removeSubtask_takes_parent_priority:
  "priority subtask_2_1 = Some ''high''
   \<and> priority project_task2 = Some ''low''
   \<and> fst (removeSubtask project ''2.1'' True) = Inr (Some converted_2_1)
   \<and> priority converted_2_1 = Some ''low''"
  by code_simp

lemma keptDependencies_filter:
  "keptDependencies ts deps = filter (\<lambda>d. d \<in> task_id ` set ts) deps"
proof -
  have i: "invalidDeps ts deps = filter (\<lambda>d. d \<notin> task_id ` set ts) deps"
    by (auto simp: invalidDeps_def list_ex_iff intro: filter_cong)
  have "filter (\<lambda>d. d \<notin> set (invalidDeps ts deps)) deps = filter (\<lambda>d. d \<in> task_id ` set ts) deps"
    unfolding i by (rule filter_cong) auto
  moreover have "deps = filter (\<lambda>d. d \<in> task_id ` set ts) deps" if "invalidDeps ts deps = []"
    using that unfolding i by (simp add: filter_empty_conv filter_id_conv)
  ultimately show ?thesis by (auto simp: keptDependencies_def)
qed

lemma invalidDeps_filter:
  "invalidDeps ts deps = filter (\<lambda>d. d \<notin> task_id ` set ts) deps"
  by (auto simp: invalidDeps_def list_ex_iff intro: filter_cong)

text \<open>
  Claim C8. On a document with at least one task and a generated task that has a title
  and a description, \<^verbatim>\<open>addTask\<close> succeeds whatever dependencies are supplied: the new
  id is one more than the highest task id, the new task, appended to the list, depends
  on exactly the supplied dependencies that are ids of existing tasks (in the order
  given), and the others are the ones named in the warning.
\<close>

theorem addTask_drops_unresolved_dependencies:
  "ts \<noteq> [] \<and> \<not> falsy (gen_title td) \<and> \<not> falsy (gen_description td)
   \<longrightarrow> (\<exists>newTask.
          addTask validateAndFix (Some td) (Some (Document (Some ts) m)) deps prio
            = (Inr (Max (set (map task_id ts)) + 1, filter (\<lambda>d. d \<notin> task_id ` set ts) deps),
               Some (validateAndFix (Document (Some (ts @ [newTask])) m)))
        \<and> task_id newTask = Max (set (map task_id ts)) + 1
        \<and> dependencies newTask = Some (filter (\<lambda>d. d \<in> task_id ` set ts) deps)
        \<and> status newTask = Some ''pending''
        \<and> priority newTask = Some prio)"
proof (intro impI, elim conjE)
  assume ne: "ts \<noteq> []" and t: "\<not> falsy (gen_title td)" and d: "\<not> falsy (gen_description td)"
  let ?n = "Task (Max (set (map task_id ts)) + 1) (gen_title td) (gen_description td)
              (Some (or_default (gen_details td) ''''))
              (Some (or_default (gen_testStrategy td)
                 ''Manually verify the implementation works as expected.''))
              (Some ''pending'') (Some prio)
              (Some (filter (\<lambda>d. d \<in> task_id ` set ts) deps)) None None"
  have mx: "math_max (map task_id ts) = Some (Max (set (map task_id ts)))"
    using math_max_Max[of "map task_id ts"] ne by simp
  have "addTask validateAndFix (Some td) (Some (Document (Some ts) m)) deps prio
            = (Inr (Max (set (map task_id ts)) + 1, filter (\<lambda>d. d \<notin> task_id ` set ts) deps),
               Some (validateAndFix (Document (Some (ts @ [?n])) m)))"
    using t d mx by (simp add: addTask_def Let_def keptDependencies_filter invalidDeps_filter)
  then show "\<exists>newTask.
          addTask validateAndFix (Some td) (Some (Document (Some ts) m)) deps prio
            = (Inr (Max (set (map task_id ts)) + 1, filter (\<lambda>d. d \<notin> task_id ` set ts) deps),
               Some (validateAndFix (Document (Some (ts @ [newTask])) m)))
        \<and> task_id newTask = Max (set (map task_id ts)) + 1
        \<and> dependencies newTask = Some (filter (\<lambda>d. d \<in> task_id ` set ts) deps)
        \<and> status newTask = Some ''pending''
        \<and> priority newTask = Some prio"
    by (intro exI[of _ ?n]) simp
qed

theorem addTask_drops_unresolved_dependencies_witness:
  "addTask (\<lambda>d. d) (Some (TaskData (Some ''t'') (Some ''d'') None None)) scenario
     [1, 99, 3, 99, 42] ''high''
   = (Inr (4, [99, 99, 42]), Some (Document (Some (scenario_tasks @ [added_task])) ''meta''))
   \<and> dependencies added_task = Some [1, 3]"
proof -
  have h: "scenario_tasks \<noteq> []" "\<not> falsy (gen_title (TaskData (Some ''t'') (Some ''d'') None None))"
    "\<not> falsy (gen_description (TaskData (Some ''t'') (Some ''d'') None None))"
    by code_simp+
  have e: "addTask (\<lambda>d. d) (Some (TaskData (Some ''t'') (Some ''d'') None None)) scenario
     [1, 99, 3, 99, 42] ''high''
   = (Inr (4, [99, 99, 42]), Some (Document (Some (scenario_tasks @ [added_task])) ''meta''))"
    by code_simp
  from h addTask_drops_unresolved_dependencies[where ts=scenario_tasks
      and td="TaskData (Some ''t'') (Some ''d'') None None" and validateAndFix="\<lambda>d. d" and m="''meta''"
      and deps="[1, 99, 3, 99, 42]" and prio="''high''"]
  obtain newTask where
    n: "addTask (\<lambda>d. d) (Some (TaskData (Some ''t'') (Some ''d'') None None))
          (Some (Document (Some scenario_tasks) ''meta'')) [1, 99, 3, 99, 42] ''high''
        = (Inr (Max (set (map task_id scenario_tasks)) + 1,
                filter (\<lambda>d. d \<notin> task_id ` set scenario_tasks) [1, 99, 3, 99, 42]),
           Some (Document (Some (scenario_tasks @ [newTask])) ''meta''))"
      "dependencies newTask
        = Some (filter (\<lambda>d. d \<in> task_id ` set scenario_tasks) [1, 99, 3, 99, 42])"
    by blast
  from n(1) e have "newTask = added_task" by (simp add: scenario_def)
  with n(2) have "dependencies added_task
        = Some (filter (\<lambda>d. d \<in> task_id ` set scenario_tasks) [1, 99, 3, 99, 42])"
    by simp
  moreover have "filter (\<lambda>d. d \<in> task_id ` set scenario_tasks) [1, 99, 3, 99, 42] = [1, 3]"
    by (simp add: scenario_tasks_def scenario_task1_def scenario_task2_def scenario_task3_def)
  ultimately show ?thesis using e by simp
qed

subsection \<open>Records of the text generator\<close>

lemma validate_subtask_skips: "\<not> is_object r \<Longrightarrow> validate_subtask startId i r = None"
  by (simp add: validate_subtask_def)

lemma or_json_truthy: "truthy d \<Longrightarrow> truthy (or_json v d)"
  by (auto simp: or_json_def split: option.splits)

lemma validate_subtask_object:
  assumes "is_object r"
  shows "\<exists>v. validate_subtask startId i r = Some v
       \<and> v_status v = ''pending''
       \<and> v_title v = or_json (get_prop r ''title'') (JStr (''Subtask '' @ string_of_int (startId + int i)))
       \<and> truthy (v_title v)
       \<and> v_dependencies v = (case get_prop r ''dependencies'' of
                                Some (JArr deps) \<Rightarrow> filter is_number deps | _ \<Rightarrow> [])
       \<and> list_all is_number (v_dependencies v)"
proof -
  have "list_all is_number (case get_prop r ''dependencies'' of
                                Some (JArr deps) \<Rightarrow> filter is_number deps | _ \<Rightarrow> [])"
    by (auto simp: list_all_iff split: option.splits json.splits)
  then show ?thesis
    using assms by (simp add: validate_subtask_def Let_def or_json_truthy)
qed

lemma set_map_filter_eq: "set (List.map_filter f xs) = {y. \<exists>x\<in>set xs. f x = Some y}"
  by (induction xs) (auto split: option.splits)

lemma set_validatedSubtasks:
  "set (validatedSubtasks startId rs)
   = {v. \<exists>i<length rs. validate_subtask startId i (rs ! i) = Some v}"
proof -
  have "(\<exists>x\<in>set (enumerate 0 rs). (case x of (index, subtask) \<Rightarrow>
            validate_subtask startId index subtask) = Some v)
        \<longleftrightarrow> (\<exists>i<length rs. validate_subtask startId i (rs ! i) = Some v)" for v
  proof
    assume "\<exists>x\<in>set (enumerate 0 rs). (case x of (index, subtask) \<Rightarrow>
            validate_subtask startId index subtask) = Some v"
    then show "\<exists>i<length rs. validate_subtask startId i (rs ! i) = Some v"
      by (auto simp: in_set_enumerate_eq)
  next
    assume "\<exists>i<length rs. validate_subtask startId i (rs ! i) = Some v"
    then obtain i where i: "i < length rs" "validate_subtask startId i (rs ! i) = Some v"
      by blast
    then have "(i, rs ! i) \<in> set (enumerate 0 rs)"
      by (simp add: in_set_enumerate_eq)
    with i(2) show "\<exists>x\<in>set (enumerate 0 rs). (case x of (index, subtask) \<Rightarrow>
            validate_subtask startId index subtask) = Some v"
      by force
  qed
  then show ?thesis
    by (simp add: validatedSubtasks_def set_map_filter_eq)
qed

lemma set_parseSubtasksFromText:
  "set (parseSubtasksFromText parsed startId n)
   = (case parsed of
        Some (JArr rs) \<Rightarrow> {v. \<exists>i<length rs. validate_subtask startId i (rs ! i) = Some v}
      | _ \<Rightarrow> {})"
proof (cases parsed)
  case None
  then show ?thesis by (simp add: parseSubtasksFromText_def)
next
  case (Some j)
  show ?thesis
  proof (cases j)
    case (JArr rs)
    have "set (if length (validatedSubtasks startId rs) = 0 \<and> 0 < n then []
               else validatedSubtasks startId rs) = set (validatedSubtasks startId rs)"
      by auto
    then show ?thesis
      using Some JArr by (simp add: parseSubtasksFromText_def Let_def set_validatedSubtasks)
  qed (simp_all add: Some parseSubtasksFromText_def)
qed

text \<open>
  Claim C9, as amended. Every subtask record that \<^verbatim>\<open>parseSubtasksFromText\<close> returns
  comes from an object among the parsed records and has been defaulted: its status is
  pending (whatever the record said), its title is the record's or, when that is
  missing or falsy, the placeholder \<^verbatim>\<open>Subtask n\<close>, and its dependencies are the number
  entries of the record's array, every other entry being dropped. Every object among
  the records yields such a subtask; a record that is not an object yields none.
\<close>

theorem parseSubtasksFromText_validates:
  "(v \<in> set (parseSubtasksFromText parsed startId n)
      \<longrightarrow> (\<exists>rs i. parsed = Some (JArr rs) \<and> i < length rs \<and> is_object (rs ! i)
                  \<and> validate_subtask startId i (rs ! i) = Some v)
          \<and> v_status v = ''pending'' \<and> truthy (v_title v)
          \<and> list_all is_number (v_dependencies v))
   \<and> (i < length rs \<and> is_object (rs ! i)
      \<longrightarrow> (\<exists>w. validate_subtask startId i (rs ! i) = Some w
               \<and> w \<in> set (parseSubtasksFromText (Some (JArr rs)) startId n)
               \<and> v_status w = ''pending''
               \<and> v_title w
                   = (case get_prop (rs ! i) ''title'' of
                        None \<Rightarrow> JStr (''Subtask '' @ string_of_int (startId + int i))
                      | Some t \<Rightarrow> if truthy t then t
                                  else JStr (''Subtask '' @ string_of_int (startId + int i)))
               \<and> v_dependencies w
                   = (case get_prop (rs ! i) ''dependencies'' of
                        Some (JArr deps) \<Rightarrow> filter is_number deps | _ \<Rightarrow> [])))
   \<and> (\<not> is_object r \<longrightarrow> validate_subtask startId k r = None)"
proof -
  have a: "(\<exists>rs i. parsed = Some (JArr rs) \<and> i < length rs \<and> is_object (rs ! i)
                  \<and> validate_subtask startId i (rs ! i) = Some v)
          \<and> v_status v = ''pending'' \<and> truthy (v_title v)
          \<and> list_all is_number (v_dependencies v)"
    if "v \<in> set (parseSubtasksFromText parsed startId n)"
  proof -
    from that obtain rs i where p: "parsed = Some (JArr rs)" and i: "i < length rs"
      and v: "validate_subtask startId i (rs ! i) = Some v"
      unfolding set_parseSubtasksFromText by (auto split: option.splits json.splits)
    have o: "is_object (rs ! i)"
      using v validate_subtask_skips[of "rs ! i" startId i] by auto
    from validate_subtask_object[OF o, of startId i] v p i o show ?thesis by auto
  qed
  have b: "\<exists>w. validate_subtask startId i (rs ! i) = Some w
               \<and> w \<in> set (parseSubtasksFromText (Some (JArr rs)) startId n)
               \<and> v_status w = ''pending''
               \<and> v_title w
                   = (case get_prop (rs ! i) ''title'' of
                        None \<Rightarrow> JStr (''Subtask '' @ string_of_int (startId + int i))
                      | Some t \<Rightarrow> if truthy t then t
                                  else JStr (''Subtask '' @ string_of_int (startId + int i)))
               \<and> v_dependencies w
                   = (case get_prop (rs ! i) ''dependencies'' of
                        Some (JArr deps) \<Rightarrow> filter is_number deps | _ \<Rightarrow> [])"
    if "i < length rs" "is_object (rs ! i)"
  proof -
    from validate_subtask_object[OF that(2), of startId i] obtain w where
      w: "validate_subtask startId i (rs ! i) = Some w"
      "v_status w = ''pending''"
      "v_title w = or_json (get_prop (rs ! i) ''title'')
                                (JStr (''Subtask '' @ string_of_int (startId + int i)))"
      "v_dependencies w = (case get_prop (rs ! i) ''dependencies'' of
                                        Some (JArr deps) \<Rightarrow> filter is_number deps | _ \<Rightarrow> [])"
      by blast
    have m: "w \<in> set (parseSubtasksFromText (Some (JArr rs)) startId n)"
      unfolding set_parseSubtasksFromText using that(1) w(1) by auto
    have t: "v_title w
                   = (case get_prop (rs ! i) ''title'' of
                        None \<Rightarrow> JStr (''Subtask '' @ string_of_int (startId + int i))
                      | Some t \<Rightarrow> if truthy t then t
                                  else JStr (''Subtask '' @ string_of_int (startId + int i)))"
      unfolding w(3) or_json_def by (rule refl)
    from w(1,2,4) m t show ?thesis by blast
  qed
  have c: "validate_subtask startId k r = None" if "\<not> is_object r"
    using that by (rule validate_subtask_skips)
  from a b c show ?thesis by blast
qed

theorem parseSubtasksFromText_validates_witness:
  "parseSubtasksFromText (Some (JArr generated_records)) 4 3 = [validated_first, validated_third]
   \<and> v_status validated_first = ''pending''
   \<and> v_dependencies validated_first = [JNum 1]
   \<and> v_title validated_third = JStr ''Subtask 6''
   \<and> validate_subtask 4 1 (generated_records ! 1) = None"
proof -
  have e: "parseSubtasksFromText (Some (JArr generated_records)) 4 3
           = [validated_first, validated_third]"
    by code_simp
  then have m: "validated_first \<in> set (parseSubtasksFromText (Some (JArr generated_records)) 4 3)"
    by simp
  have i: "2 < length generated_records" "is_object (generated_records ! 2)"
    "\<not> is_object (generated_records ! 1)"
    "validate_subtask 4 2 (generated_records ! 2) = Some validated_third"
    "validate_subtask 4 0 (generated_records ! 0) = Some validated_first"
    "0 < length generated_records" "is_object (generated_records ! 0)"
    "get_prop (generated_records ! 2) ''title'' = None"
    "JStr (''Subtask '' @ string_of_int (4 + int 2)) = JStr ''Subtask 6''"
    "(case get_prop (generated_records ! 0) ''dependencies'' of
        Some (JArr deps) \<Rightarrow> filter is_number deps | _ \<Rightarrow> []) = [JNum 1]"
    by code_simp+
  from m parseSubtasksFromText_validates[where v=validated_first
      and parsed="Some (JArr generated_records)" and startId=4 and n=3]
  have w1: "v_status validated_first = ''pending''"
    by blast
  from i parseSubtasksFromText_validates[where i=2 and rs=generated_records and startId=4]
  have w2: "v_title validated_third = JStr ''Subtask 6''"
    by auto
  from i parseSubtasksFromText_validates[where i=0 and rs=generated_records and startId=4]
  have w3: "v_dependencies validated_first = [JNum 1]"
    by auto
  from i parseSubtasksFromText_validates[where r="generated_records ! 1" and startId=4 and k=1]
  have w4: "validate_subtask 4 1 (generated_records ! 1) = None"
    by blast
  from e w1 w2 w3 w4 show ?thesis by simp
qed

text \<open>
  Claim C9 as stated fails for the task records generated from a requirements
  document: \<^verbatim>\<open>processApiResponse\<close> only checks that \<^verbatim>\<open>tasks\<close> is an array, and
  \<^verbatim>\<open>parsePRD\<close> writes that array as it is. An empty object (no title, no status) and a
  string are admitted unchanged.
\<close>

theorem processApiResponse_admits_unvalidated_records:
  "admitted_tasks (Some (JObj [(''tasks'', JArr [JObj [], JStr ''x''])])) (JObj [])
   = [JObj [], JStr ''x'']"
  by code_simp

end
